theory Spec2Isabelle
  imports Main "HOL-Library.Word"
begin

section \<open>Range-check elimination (jit/rangecheck.cpp)\<close>

text \<open>
  A shallow embedding of the JIT's range-check pass. IR nodes and basic blocks are
  heap objects in the source; here a node or block is named by a number (its
  identity) and the record \<open>Compiler\<close> maps identities to their contents. The
  value-number store, the assertion table and the SSA tables are collaborators of
  the pass; they are fields of \<open>Compiler\<close>, so every theorem holds for any
  behaviour of theirs. C++ \<open>int\<close> is \<open>32 word\<close> read with \<open>sint\<close>;
  \<open>ssize_t\<close> values are \<open>int\<close>.
\<close>

subsection \<open>IR, value numbers, assertions\<close>

type_synonym int32 = "32 word"
type_synonym ValueNum = nat
type_synonym tree = nat
type_synonym stmt = nat
type_synonym block = nat

datatype genTreeOps =
    GT_NONE | GT_COMMA | GT_ARR_BOUNDS_CHECK | GT_LCL_VAR | GT_PHI_ARG | GT_CNS_INT
  | GT_ADD | GT_SUB | GT_PHI | GT_ASG | GT_ASG_ADD
  | GT_LT | GT_LE | GT_GT | GT_GE | GT_EQ | GT_NE | GT_OTHER

datatype var_types = TYP_INT | TYP_LONG | TYP_ULONG | TYP_OTHER

datatype BBjumpKinds = BBJ_NONE | BBJ_COND | BBJ_ALWAYS | BBJ_OTHER

datatype optAssertionKind = OAK_EQUAL | OAK_NOT_EQUAL | OAK_OTHER

text \<open>
  One IR node. \<open>gtVN\<close> is the conservative value number of the node, \<open>phiArgs\<close>
  the argument list hanging off a \<open>GT_PHI\<close>, \<open>isLocal\<close> the IR's own
  \<open>IsLocal()\<close> predicate. Fields that a node kind does not have are never
  read for that kind.
\<close>

record GenTree =
  gtOper :: genTreeOps
  gtType :: var_types
  gtVN :: ValueNum
  gtOp1 :: tree
  gtOp2 :: tree
  phiArgs :: "tree list"
  isLocal :: bool
  gtLclNum :: nat
  gtSsaNum :: nat
  gtIconVal :: int
  gtPredBB :: block
  gtIndex :: tree
  gtArrLen :: tree

record BasicBlock =
  bbNum :: nat
  bbNext :: "block option"
  bbJumpKind :: BBjumpKinds
  bbJumpDest :: "block option"
  bbFallsThrough :: bool
  bbAssertionIn :: "nat list"
  bbAssertionOut :: "nat list"
  bbTreeList :: "stmt list"

record Location =
  loc_block :: block
  loc_stmt :: stmt
  loc_tree :: tree
  loc_parent :: tree

record ArrLenArithBoundInfo =
  vnArray :: ValueNum
  arrOper :: genTreeOps
  arrOp :: ValueNum
  cmpOper :: genTreeOps
  cmpOp :: ValueNum

record ConstantBoundInfo =
  cb_constVal :: int32
  cb_cmpOper :: genTreeOps
  cb_cmpOpVN :: ValueNum

record AssertionDsc =
  assertionKind :: optAssertionKind
  op1_vn :: ValueNum
  op2_vn :: ValueNum
  IsArrLenArithBound :: bool
  IsArrLenBound :: bool
  IsConstantBound :: bool

text \<open>
  The compiler instance the pass reads: the IR, the value-number store
  (\<open>IsVNConstant\<close> ... \<open>GetConstantBoundInfo\<close>), the assertion table, the
  per-SSA value numbers of locals (\<open>ssaVN lclNum ssaNum\<close>) and the table of
  definitions that \<open>MapMethodDefs\<close> builds (\<open>defTable\<close>, keyed by the pair
  that \<open>HashCode\<close> packs into 64 bits). An assertion set is the list of its
  bit indices in increasing order. The linked lists of the method are lists:
  \<open>fgBBs\<close> is the chain of blocks from \<open>fgFirstBB\<close>, \<open>bbTreeList\<close> the
  statements of a block and \<open>gtStmtList\<close> the nodes of a statement in
  execution order.
\<close>

record Compiler =
  node :: "tree \<Rightarrow> GenTree"
  bb :: "block \<Rightarrow> BasicBlock"
  fgBBs :: "block list"
  gtStmtList :: "stmt \<Rightarrow> tree list"
  fgSsaPassesCompleted :: nat
  bbJtrueAssertionOut :: "(nat \<Rightarrow> nat list) option"
  optGetAssertion :: "nat \<Rightarrow> AssertionDsc"
  ssaVN :: "nat \<Rightarrow> nat \<Rightarrow> ValueNum"
  defTable :: "(nat \<times> nat) \<Rightarrow> Location option"
  RESERVED_SSA_NUM :: nat
  NoVN :: ValueNum
  IsVNConstant :: "ValueNum \<Rightarrow> bool"
  TypeOfVN :: "ValueNum \<Rightarrow> var_types"
  ConstantValueInt :: "ValueNum \<Rightarrow> int32"
  IsVNArrLen :: "ValueNum \<Rightarrow> bool"
  GetArrForLenVn :: "ValueNum \<Rightarrow> ValueNum"
  GetNewArrSize :: "ValueNum \<Rightarrow> int32"
  VNZeroForTypeInt :: ValueNum
  GetArrLenArithBoundInfo :: "ValueNum \<Rightarrow> ArrLenArithBoundInfo"
  GetArrLenBoundInfo :: "ValueNum \<Rightarrow> ArrLenArithBoundInfo"
  GetConstantBoundInfo :: "ValueNum \<Rightarrow> ConstantBoundInfo"

subsection \<open>Limit and Range\<close>

datatype LimitType =
    keUndef | keBinOp | keBinOpArray | keSsaVar | keArray | keConstant
  | keDependent | keUnknown

record Limit =
  cns :: int32
  vn :: ValueNum
  type :: LimitType

record Range =
  lLimit :: Limit
  uLimit :: Limit

text \<open>
  The constructors of \<open>Limit\<close>. The one-argument constructor leaves \<open>cns\<close> and
  \<open>vn\<close> unset and the pass never reads them for such a limit; the model puts 0
  there.
\<close>

definition Limit1 :: "LimitType \<Rightarrow> Limit" where
  "Limit1 t = \<lparr>cns = 0, vn = 0, type = t\<rparr>"

definition Limit2 :: "LimitType \<Rightarrow> int32 \<Rightarrow> Limit" where
  "Limit2 t c = \<lparr>cns = c, vn = 0, type = t\<rparr>"

definition Limit3 :: "LimitType \<Rightarrow> ValueNum \<Rightarrow> int32 \<Rightarrow> Limit" where
  "Limit3 t v c = \<lparr>cns = c, vn = v, type = t\<rparr>"

definition Range1 :: "Limit \<Rightarrow> Range" where
  "Range1 l = \<lparr>lLimit = l, uLimit = l\<rparr>"

definition IsUndef :: "Limit \<Rightarrow> bool" where "IsUndef l = (type l = keUndef)"
definition IsUnknown :: "Limit \<Rightarrow> bool" where "IsUnknown l = (type l = keUnknown)"
definition IsDependent :: "Limit \<Rightarrow> bool" where "IsDependent l = (type l = keDependent)"
definition IsConstant :: "Limit \<Rightarrow> bool" where "IsConstant l = (type l = keConstant)"
definition IsArray :: "Limit \<Rightarrow> bool" where "IsArray l = (type l = keArray)"
definition IsBinOpArray :: "Limit \<Rightarrow> bool" where "IsBinOpArray l = (type l = keBinOpArray)"

definition INT_MAX :: int where "INT_MAX = 2147483647"
definition INT_MIN :: int where "INT_MIN = - 2147483648"

text \<open>
  Modelled from the spec: \<open>IntAddOverflows\<close> is declared in rangecheck.h, which
  is not among the sources. The spec calls it 32-bit overflow detection: the sum
  of the two signed values leaves the range of a 32-bit signed integer.
\<close>

definition IntAddOverflows :: "int32 \<Rightarrow> int32 \<Rightarrow> bool" where
  "IntAddOverflows a b = (sint a + sint b > INT_MAX \<or> sint a + sint b < INT_MIN)"

text \<open>
  Modelled from the spec: \<open>Limit::AddConstant\<close> is declared in rangecheck.h,
  which is not among the sources. For \<open>Constant(c)\<close> and \<open>BinOpArray(v, c)\<close> it
  attempts \<open>c + k\<close> with 32-bit overflow detection and reports failure on
  overflow, leaving the limit unchanged. Adding to \<open>Array(v)\<close> gives
  \<open>BinOpArray(v, k)\<close> (the spec's loop scenario turns \<open>i < n\<close> into the upper
  limit \<open>n - 1\<close>); the other variants, which the assertion merger never passes,
  are left as they are. The result is the success flag and the limit afterwards.
\<close>

definition AddConstant :: "Limit \<Rightarrow> int32 \<Rightarrow> bool \<times> Limit" where
  "AddConstant l k =
     (if type l = keConstant \<or> type l = keBinOpArray then
        (if IntAddOverflows (cns l) k then (False, l) else (True, l\<lparr>cns := cns l + k\<rparr>))
      else if type l = keArray then (True, l\<lparr>type := keBinOpArray, cns := k\<rparr>)
      else (True, l))"

text \<open>
  Modelled from the spec: \<open>GenTree::ReverseRelop\<close> belongs to the IR and is not
  among the sources; it maps a relational operator to its logical negation.
\<close>

fun ReverseRelop :: "genTreeOps \<Rightarrow> genTreeOps" where
  "ReverseRelop GT_LT = GT_GE"
| "ReverseRelop GT_GE = GT_LT"
| "ReverseRelop GT_GT = GT_LE"
| "ReverseRelop GT_LE = GT_GT"
| "ReverseRelop GT_EQ = GT_NE"
| "ReverseRelop GT_NE = GT_EQ"
| "ReverseRelop x = x"

subsection \<open>BetweenBounds\<close>

definition GetArrLength :: "Compiler \<Rightarrow> ValueNum \<Rightarrow> int32" where
  "GetArrLength C v = GetNewArrSize C (GetArrForLenVn C v)"

text \<open>
  Modelled from the spec: \<open>optIsTreeKnownIntValue\<close> is a function of the
  compiler that is not among the sources. The spec's fast path reads it as: the
  tree has a 32-bit constant value number, and the result is that constant.
\<close>

definition optIsTreeKnownIntValue :: "Compiler \<Rightarrow> tree \<Rightarrow> int option" where
  "optIsTreeKnownIntValue C t =
     (let v = gtVN (node C t) in
      if IsVNConstant C v \<and> TypeOfVN C v = TYP_INT then Some (sint (ConstantValueInt C v))
      else None)"

text \<open>The cast \<open>(int)constVal\<close> of an \<open>ssize_t\<close>.\<close>

definition to_int32 :: "int \<Rightarrow> int32" where
  "to_int32 i = word_of_int i"

text \<open>
  The first half of \<open>BetweenBounds\<close>: resolving the upper tree to
  \<open>(arrRefVN, arrSize)\<close>; \<open>None\<close> is the early \<open>return false\<close>.
\<close>

definition BetweenBounds_resolve :: "Compiler \<Rightarrow> tree \<Rightarrow> (ValueNum \<times> int32) option" where
  "BetweenBounds_resolve C upper =
     (let uLimitVN = gtVN (node C upper) in
      if IsVNConstant C uLimitVN then
        (case optIsTreeKnownIntValue C upper of
           Some v \<Rightarrow> Some (NoVN C, to_int32 v)
         | None \<Rightarrow> Some (NoVN C, 0))
      else if IsVNArrLen C uLimitVN then
        (let arrRefVN = GetArrForLenVn C uLimitVN in Some (arrRefVN, GetNewArrSize C arrRefVN))
      else None)"

definition BetweenBounds :: "Compiler \<Rightarrow> Range \<Rightarrow> int32 \<Rightarrow> tree \<Rightarrow> bool" where
  "BetweenBounds C r lower upper =
     (case BetweenBounds_resolve C upper of
        None \<Rightarrow> False
      | Some (arrRefVN, arrSize) \<Rightarrow>
          if IsBinOpArray (uLimit r) then
            (if vn (uLimit r) \<noteq> arrRefVN then False
             else let ucns = cns (uLimit r) in
               if 0 \<le>s ucns then False
               else if IsArray (lLimit r) then False
               else if IsConstant (lLimit r) \<and> 0 \<le>s cns (lLimit r) then True
               else if arrSize \<le>s 0 then False
               else if IsBinOpArray (lLimit r) then
                 (let lcns = cns (lLimit r) in
                  if 0 \<le>s lcns \<or> arrSize <s - lcns then False
                  else vn (lLimit r) = arrRefVN \<and> lcns \<le>s ucns)
               else False)
          else if IsConstant (uLimit r) then
            (if arrSize \<le>s 0 then False
             else let ucns = cns (uLimit r) in
               if arrSize \<le>s ucns then False
               else if IsConstant (lLimit r) then
                 (let lcns = cns (lLimit r) in 0 \<le>s lcns \<and> lcns \<le>s ucns)
               else if IsBinOpArray (lLimit r) then
                 (let lcns = cns (lLimit r) in
                  if 0 \<le>s lcns \<or> arrSize <s - lcns then False
                  else vn (lLimit r) = arrRefVN \<and> arrSize + lcns \<le>s ucns)
               else False)
          else False)"

subsection \<open>Merging edge assertions\<close>

text \<open>
  The first part of the loop body of \<open>MergeEdgeAssertions\<close>: the limit and the
  relational operator an assertion gives for the local whose SSA value number is
  \<open>lclVn\<close>. \<open>None\<close> is a \<open>continue\<close>. The limit is \<open>keUndef\<close>,
  \<open>keBinOpArray\<close>, \<open>keArray\<close> or \<open>keConstant\<close>, so the \<open>noway_assert\<close>
  that follows the \<open>IsUndef\<close> test in the source cannot fail.
\<close>

definition AssertionLimit :: "Compiler \<Rightarrow> ValueNum \<Rightarrow> AssertionDsc \<Rightarrow> (Limit \<times> genTreeOps) option" where
  "AssertionLimit C lclVn a =
     (if IsArrLenArithBound a then
        (let info = GetArrLenArithBoundInfo C (op1_vn a) in
         if lclVn \<noteq> cmpOp info then None
         else Some
           (if (arrOper info = GT_SUB \<or> arrOper info = GT_ADD)
                \<and> IsVNConstant C (arrOp info) \<and> TypeOfVN C (arrOp info) = TYP_INT
            then (let cons = ConstantValueInt C (arrOp info) in
                  Limit3 keBinOpArray (vnArray info) (if arrOper info = GT_SUB then - cons else cons))
            else Limit1 keUndef,
            cmpOper info))
      else if IsArrLenBound a then
        (let info = GetArrLenBoundInfo C (op1_vn a) in
         if lclVn \<noteq> cmpOp info then None
         else Some ((Limit1 keUndef)\<lparr>type := keArray, vn := vnArray info\<rparr>, cmpOper info))
      else if IsConstantBound a then
        (let info = GetConstantBoundInfo C (op1_vn a) in
         if lclVn \<noteq> cb_cmpOpVN info then None
         else Some (Limit3 keConstant (NoVN C) (cb_constVal info), cb_cmpOper info))
      else None)"

text \<open>The array reference of the bounds check under analysis (\<open>m_pCurBndsChk\<close>).\<close>

definition CurArrRefVN :: "Compiler \<Rightarrow> tree \<Rightarrow> ValueNum" where
  "CurArrRefVN C chk =
     (let arrLenVN = gtVN (node C (gtArrLen (node C chk))) in
      if IsVNArrLen C arrLenVN then GetArrForLenVn C arrLenVN else NoVN C)"

text \<open>
  The relational operator after the reversal for \<open>OAK_EQUAL\<close>, and the two
  inclusive-bound adjustments; \<open>None\<close> when \<open>AddConstant\<close> reports overflow.
\<close>

definition AdjustedOper :: "AssertionDsc \<Rightarrow> genTreeOps \<Rightarrow> genTreeOps" where
  "AdjustedOper a oper = (if assertionKind a = OAK_EQUAL then ReverseRelop oper else oper)"

definition AdjustLimit :: "genTreeOps \<Rightarrow> Limit \<Rightarrow> Limit option" where
  "AdjustLimit oper limit =
     (case (if oper = GT_LT then AddConstant limit (- 1) else (True, limit)) of
        (ok1, limit1) \<Rightarrow>
          if \<not> ok1 then None
          else (case (if oper = GT_GT then AddConstant limit1 1 else (True, limit1)) of
                  (ok2, limit2) \<Rightarrow> if \<not> ok2 then None else Some limit2))"

text \<open>
  The two tests made before the limit is stored: \<open>True\<close> is a \<open>continue\<close>.
  Both look at the current upper limit only.
\<close>

definition DoesNotTighten :: "ValueNum \<Rightarrow> Range \<Rightarrow> Limit \<Rightarrow> bool" where
  "DoesNotTighten arrRefVN pRange limit =
     (if IsConstant (uLimit pRange) \<and> vn limit \<noteq> arrRefVN then True
      else if (IsArray (uLimit pRange) \<or> IsBinOpArray (uLimit pRange))
              \<and> vn (uLimit pRange) = arrRefVN then
        (if vn limit \<noteq> arrRefVN then True
         else let curCns = (if IsBinOpArray (uLimit pRange) then cns (uLimit pRange) else 0);
                  limCns = (if IsBinOpArray limit then cns limit else 0)
              in curCns \<le>s limCns)
      else False)"

text \<open>The final \<open>switch (cmpOper)\<close>.\<close>

definition StoreLimit :: "genTreeOps \<Rightarrow> Limit \<Rightarrow> Range \<Rightarrow> Range" where
  "StoreLimit oper limit pRange =
     (if oper = GT_LT then pRange\<lparr>uLimit := limit\<rparr>
      else if oper = GT_GT then pRange\<lparr>lLimit := limit\<rparr>
      else if oper = GT_GE then pRange\<lparr>lLimit := limit\<rparr>
      else if oper = GT_LE then pRange\<lparr>uLimit := limit\<rparr>
      else pRange)"

text \<open>
  One iteration of the \<open>while\<close> loop of \<open>MergeEdgeAssertions\<close>, for the bit
  index \<open>index\<close> of the set (the assertion's number is \<open>index + 1\<close>).
\<close>

definition MergeEdgeAssertions_body :: "Compiler \<Rightarrow> tree \<Rightarrow> tree \<Rightarrow> nat \<Rightarrow> Range \<Rightarrow> Range" where
  "MergeEdgeAssertions_body C chk lcl index pRange =
     (let curAssertion = optGetAssertion C (index + 1) in
      if \<not> IsArrLenArithBound curAssertion \<and> \<not> IsArrLenBound curAssertion
         \<and> \<not> IsConstantBound curAssertion then pRange
      else
        (case AssertionLimit C (ssaVN C (gtLclNum (node C lcl)) (gtSsaNum (node C lcl))) curAssertion of
           None \<Rightarrow> pRange
         | Some (limit, oper) \<Rightarrow>
             if IsUndef limit then pRange
             else if op2_vn curAssertion \<noteq> VNZeroForTypeInt C then pRange
             else
               (case AdjustLimit (AdjustedOper curAssertion oper) limit of
                  None \<Rightarrow> pRange
                | Some limit' \<Rightarrow>
                    if DoesNotTighten (CurArrRefVN C chk) pRange limit' then pRange
                    else StoreLimit (AdjustedOper curAssertion oper) limit' pRange)))"

definition MergeEdgeAssertions :: "Compiler \<Rightarrow> tree \<Rightarrow> tree \<Rightarrow> nat list \<Rightarrow> Range \<Rightarrow> Range" where
  "MergeEdgeAssertions C chk t assertions pRange =
     (if assertions = [] then pRange
      else if gtSsaNum (node C t) = RESERVED_SSA_NUM C then pRange
      else foldl (\<lambda>r index. MergeEdgeAssertions_body C chk t index r) pRange assertions)"

text \<open>
  \<open>MergeAssertion\<close>: the local \<open>assertions\<close> starts uninitialised (\<open>None\<close>)
  and the merge step runs only when it was assigned.
\<close>

definition MergeAssertion :: "Compiler \<Rightarrow> tree \<Rightarrow> block \<Rightarrow> tree \<Rightarrow> Range \<Rightarrow> Range" where
  "MergeAssertion C chk blk op pRange =
     (let assertions =
        (if gtOper (node C op) = GT_PHI_ARG then
           (let pred = bb C (gtPredBB (node C op)) in
            if bbFallsThrough pred \<and> bbNext pred = Some blk then Some (bbAssertionOut pred)
            else if (bbJumpKind pred = BBJ_COND \<or> bbJumpKind pred = BBJ_ALWAYS)
                    \<and> bbJumpDest pred = Some blk then
              (case bbJtrueAssertionOut C of
                 Some tab \<Rightarrow> Some (tab (bbNum pred))
               | None \<Rightarrow> None)
            else None)
         else if isLocal (node C op) then Some (bbAssertionIn (bb C blk))
         else None)
      in case assertions of
           None \<Rightarrow> pRange
         | Some a \<Rightarrow> MergeEdgeAssertions C chk op a pRange)"

subsection \<open>RangeOps\<close>

text \<open>
  Modelled from the spec: \<open>RangeOps::Add\<close> is declared in rangecheck.h, which is
  not among the sources. Endpoints are added separately: anything with Unknown
  is Unknown; otherwise anything with Dependent is Dependent; Constant + Constant
  is the constant sum (Unknown on overflow); Constant + Array(v) is
  BinOpArray(v, c); Constant + BinOpArray(v, d) is BinOpArray(v, c + d) (Unknown
  on overflow); every other combination is Unknown.
\<close>

definition Limit_Add :: "Limit \<Rightarrow> Limit \<Rightarrow> Limit" where
  "Limit_Add a b =
     (if IsUnknown a \<or> IsUnknown b then Limit1 keUnknown
      else if IsDependent a \<or> IsDependent b then Limit1 keDependent
      else if IsConstant a \<and> IsConstant b then
        (if IntAddOverflows (cns a) (cns b) then Limit1 keUnknown
         else Limit2 keConstant (cns a + cns b))
      else if IsConstant a \<and> IsArray b then Limit3 keBinOpArray (vn b) (cns a)
      else if IsArray a \<and> IsConstant b then Limit3 keBinOpArray (vn a) (cns b)
      else if IsConstant a \<and> IsBinOpArray b then
        (if IntAddOverflows (cns a) (cns b) then Limit1 keUnknown
         else Limit3 keBinOpArray (vn b) (cns a + cns b))
      else if IsBinOpArray a \<and> IsConstant b then
        (if IntAddOverflows (cns a) (cns b) then Limit1 keUnknown
         else Limit3 keBinOpArray (vn a) (cns a + cns b))
      else Limit1 keUnknown)"

definition RangeOps_Add :: "Range \<Rightarrow> Range \<Rightarrow> Range" where
  "RangeOps_Add r1 r2 =
     \<lparr>lLimit = Limit_Add (lLimit r1) (lLimit r2), uLimit = Limit_Add (uLimit r1) (uLimit r2)\<rparr>"

text \<open>
  Modelled from the spec: \<open>RangeOps::Merge\<close> is declared in rangecheck.h, which
  is not among the sources. Unknown absorbs; Dependent is absorbed by a concrete
  value iff \<open>monotonic\<close> and is sticky otherwise; two concrete values of
  different form give Unknown; two of the same form keep the smaller constant
  for a lower limit and the larger for an upper limit. The phi loop starts its
  fold from the Undef placeholder, which is taken as the neutral element.
\<close>

definition Limit_Merge :: "bool \<Rightarrow> bool \<Rightarrow> Limit \<Rightarrow> Limit \<Rightarrow> Limit" where
  "Limit_Merge isLower monotonic a b =
     (if IsUnknown a \<or> IsUnknown b then Limit1 keUnknown
      else if IsUndef a then b
      else if IsUndef b then a
      else if IsDependent a \<or> IsDependent b then
        (if monotonic then (if IsDependent a then b else a) else Limit1 keDependent)
      else if IsConstant a \<and> IsConstant b then
        (if (if isLower then cns a \<le>s cns b else cns b \<le>s cns a) then a else b)
      else if IsArray a \<and> IsArray b \<and> vn a = vn b then a
      else if IsBinOpArray a \<and> IsBinOpArray b \<and> vn a = vn b then
        (if (if isLower then cns a \<le>s cns b else cns b \<le>s cns a) then a else b)
      else Limit1 keUnknown)"

definition RangeOps_Merge :: "Range \<Rightarrow> Range \<Rightarrow> bool \<Rightarrow> Range" where
  "RangeOps_Merge r1 r2 monotonic =
     \<lparr>lLimit = Limit_Merge True monotonic (lLimit r1) (lLimit r2),
      uLimit = Limit_Merge False monotonic (uLimit r1) (uLimit r2)\<rparr>"

subsection \<open>The state of the pass\<close>

text \<open>
  The members of \<open>RangeCheck\<close> that the analysis reads and writes, together with
  the \<open>SearchPath\<close> of the query in progress (one heap object per bounds check,
  handed down by pointer in the source). A hash table used as a set is the list
  of its keys. The recursion of the engines follows the definition chains of the
  IR, which nothing here forces to be acyclic, so each engine takes a fuel
  argument and fails with \<open>OutOfFuel\<close> when it is used up. A failing
  \<open>noway_assert\<close> is the failure \<open>NowayAssert\<close>.
\<close>

datatype failure = OutOfFuel | NowayAssert

type_synonym 'a res = "failure + 'a"

record RangeCheck =
  m_nVisitBudget :: int
  m_pRangeMap :: "tree \<Rightarrow> Range option"
  m_pOverflowMap :: "tree \<Rightarrow> bool option"
  m_pCurBndsChk :: tree
  path :: "tree list"

definition MAX_SEARCH_DEPTH :: nat where "MAX_SEARCH_DEPTH = 100"
definition MAX_VISIT_BUDGET :: int where "MAX_VISIT_BUDGET = 8192"

definition IsOverBudget :: "RangeCheck \<Rightarrow> bool" where
  "IsOverBudget s = (m_nVisitBudget s \<le> 0)"

definition path_Lookup :: "tree list \<Rightarrow> tree \<Rightarrow> bool" where
  "path_Lookup p e = (e \<in> set p)"

definition path_Set :: "tree \<Rightarrow> tree list \<Rightarrow> tree list" where
  "path_Set e p = (if e \<in> set p then p else e # p)"

definition path_Remove :: "tree \<Rightarrow> tree list \<Rightarrow> tree list" where
  "path_Remove e p = removeAll e p"

text \<open>
  \<open>GetDef\<close>, over the table of definitions that \<open>MapMethodDefs\<close> fills on the
  first call.
\<close>

definition GetDef :: "Compiler \<Rightarrow> tree \<Rightarrow> Location option" where
  "GetDef C t =
     (if gtSsaNum (node C t) = RESERVED_SSA_NUM C then None
      else defTable C (gtLclNum (node C t), gtSsaNum (node C t)))"

definition UnknownRange :: Range where
  "UnknownRange = Range1 (Limit1 keUnknown)"

subsection \<open>The range engine\<close>

text \<open>
  \<open>GetRange\<close>, \<open>ComputeRange\<close>, \<open>ComputeRangeForLocalDef\<close> and
  \<open>ComputeRangeForBinOp\<close> call each other. Every cycle of calls passes through
  \<open>GetRange\<close>, so the other three take the \<open>GetRange\<close> they call as their
  first argument \<open>getRange\<close>, and \<open>GetRange\<close> ties the knot by recursion on
  the fuel. \<open>ComputeRangeForPhi\<close> is the first loop of the \<open>GT_PHI\<close> branch, which
  collects one range per argument. The statement argument of the source is only
  handed on and is left out.
\<close>

type_synonym getRange_fn = "block \<Rightarrow> tree \<Rightarrow> bool \<Rightarrow> RangeCheck \<Rightarrow> (Range \<times> RangeCheck) res"

definition ComputeRangeForBinOp ::
  "getRange_fn \<Rightarrow> Compiler \<Rightarrow> block \<Rightarrow> tree \<Rightarrow> tree \<Rightarrow> bool \<Rightarrow> RangeCheck \<Rightarrow> (Range \<times> RangeCheck) res" where
  "ComputeRangeForBinOp getRange C blk op1 op2 monotonic s =
     (case
        (let inPath1 = path_Lookup (path s) op1 in
         case m_pRangeMap s op1 of
           Some cached \<Rightarrow> Inr (cached, s)
         | None \<Rightarrow>
             (case (if \<not> inPath1 then getRange blk op1 monotonic s
                    else Inr (Range1 (Limit1 keDependent), s)) of
                Inl f \<Rightarrow> Inl f
              | Inr (r, s1) \<Rightarrow> Inr (MergeAssertion C (m_pCurBndsChk s1) blk op1 r, s1)))
      of
        Inl f \<Rightarrow> Inl f
      | Inr (op1Range, s1) \<Rightarrow>
          (case
             (let inPath2 = path_Lookup (path s1) op2 in
              case m_pRangeMap s1 op2 of
                Some cached \<Rightarrow> Inr (cached, s1)
              | None \<Rightarrow>
                  (case (if \<not> inPath2 then getRange blk op2 monotonic s1
                         else Inr (Range1 (Limit1 keDependent), s1)) of
                     Inl f \<Rightarrow> Inl f
                   | Inr (r, s2) \<Rightarrow> Inr (MergeAssertion C (m_pCurBndsChk s2) blk op2 r, s2)))
           of
             Inl f \<Rightarrow> Inl f
           | Inr (op2Range, s2) \<Rightarrow> Inr (RangeOps_Add op1Range op2Range, s2)))"

definition ComputeRangeForLocalDef ::
  "getRange_fn \<Rightarrow> Compiler \<Rightarrow> block \<Rightarrow> tree \<Rightarrow> bool \<Rightarrow> RangeCheck \<Rightarrow> (Range \<times> RangeCheck) res" where
  "ComputeRangeForLocalDef getRange C blk expr monotonic s =
     (case GetDef C expr of
        None \<Rightarrow> Inr (UnknownRange, s)
      | Some loc \<Rightarrow>
          (let asg = node C (loc_parent loc) in
           if gtOper asg = GT_ASG then
             (case getRange (loc_block loc) (gtOp2 asg) monotonic s of
                Inl f \<Rightarrow> Inl f
              | Inr (r, s1) \<Rightarrow>
                  Inr (MergeEdgeAssertions C (m_pCurBndsChk s1) (gtOp1 asg)
                         (bbAssertionIn (bb C blk)) r, s1))
           else if gtOper asg = GT_ASG_ADD then
             ComputeRangeForBinOp getRange C (loc_block loc) (gtOp1 asg) (gtOp2 asg) monotonic s
           else Inr (UnknownRange, s)))"

fun ComputeRangeForPhi ::
  "getRange_fn \<Rightarrow> Compiler \<Rightarrow> block \<Rightarrow> tree list \<Rightarrow> bool \<Rightarrow> RangeCheck \<Rightarrow> (Range list \<times> RangeCheck) res" where
  "ComputeRangeForPhi getRange C blk [] monotonic s = Inr ([], s)"
| "ComputeRangeForPhi getRange C blk (a # args) monotonic s =
     (case
        (if path_Lookup (path s) a then
           Inr (MergeAssertion C (m_pCurBndsChk s) blk a (Range1 (Limit1 keDependent)), s)
         else
           (case getRange blk a monotonic s of
              Inl f \<Rightarrow> Inl f
            | Inr (r, s1) \<Rightarrow> Inr (MergeAssertion C (m_pCurBndsChk s1) blk a r, s1)))
      of
        Inl f \<Rightarrow> Inl f
      | Inr (r, s1) \<Rightarrow>
          (case ComputeRangeForPhi getRange C blk args monotonic s1 of
             Inl f \<Rightarrow> Inl f
           | Inr (rs, s2) \<Rightarrow> Inr (r # rs, s2)))"

text \<open>
  The dispatch of \<open>ComputeRange\<close> between the entry into the search path and
  the final caching.
\<close>

definition ComputeRange_dispatch ::
  "getRange_fn \<Rightarrow> Compiler \<Rightarrow> block \<Rightarrow> tree \<Rightarrow> bool \<Rightarrow> RangeCheck \<Rightarrow> (Range \<times> RangeCheck) res" where
  "ComputeRange_dispatch getRange C blk expr monotonic s =
     (let e = node C expr in
      if IsOverBudget s then Inr (UnknownRange, s)
      else if length (path s) > MAX_SEARCH_DEPTH then Inr (UnknownRange, s)
      else if gtType e = TYP_LONG \<or> gtType e = TYP_ULONG then Inr (UnknownRange, s)
      else if IsVNConstant C (gtVN e) then
        Inr (if TypeOfVN C (gtVN e) = TYP_INT
             then Range1 (Limit2 keConstant (ConstantValueInt C (gtVN e)))
             else UnknownRange, s)
      else if isLocal e then
        (case ComputeRangeForLocalDef getRange C blk expr monotonic s of
           Inl f \<Rightarrow> Inl f
         | Inr (r, s1) \<Rightarrow> Inr (MergeAssertion C (m_pCurBndsChk s1) blk expr r, s1))
      else if gtOper e = GT_ADD then
        ComputeRangeForBinOp getRange C blk (gtOp1 e) (gtOp2 e) monotonic s
      else if gtOper e = GT_PHI then
        (case ComputeRangeForPhi getRange C blk (phiArgs e) monotonic s of
           Inl f \<Rightarrow> Inl f
         | Inr (rs, s1) \<Rightarrow>
             Inr (foldl (\<lambda>r c. RangeOps_Merge r c monotonic) (Range1 (Limit1 keUndef)) rs, s1))
      else Inr (UnknownRange, s))"

definition ComputeRange ::
  "getRange_fn \<Rightarrow> Compiler \<Rightarrow> block \<Rightarrow> tree \<Rightarrow> bool \<Rightarrow> RangeCheck \<Rightarrow> (Range \<times> RangeCheck) res" where
  "ComputeRange getRange C blk expr monotonic s =
     (let newlyAdded = \<not> path_Lookup (path s) expr;
          s1 = s\<lparr>path := path_Set expr (path s)\<rparr>
      in if newlyAdded \<and> m_pRangeMap s1 expr \<noteq> None then Inl NowayAssert
      else
        (case ComputeRange_dispatch getRange C blk expr monotonic
                (if newlyAdded then s1\<lparr>m_nVisitBudget := m_nVisitBudget s1 - 1\<rparr> else s1) of
           Inl f \<Rightarrow> Inl f
         | Inr (r, s2) \<Rightarrow>
             Inr (r, s2\<lparr>m_pRangeMap := (m_pRangeMap s2)(expr \<mapsto> r),
                        path := path_Remove expr (path s2)\<rparr>)))"

primrec GetRange :: "nat \<Rightarrow> Compiler \<Rightarrow> getRange_fn" where
  "GetRange 0 C = (\<lambda>blk expr monotonic s. Inl OutOfFuel)"
| "GetRange (Suc n) C =
     (\<lambda>blk expr monotonic s.
        case m_pRangeMap s expr of
          Some r \<Rightarrow> Inr (r, s)
        | None \<Rightarrow> ComputeRange (GetRange n C) C blk expr monotonic s)"

subsection \<open>The overflow engine\<close>

definition ARRLEN_MAX :: int32 where "ARRLEN_MAX = 0x7FFFFFFF"

text \<open>\<open>GetLimitMax\<close>: \<open>None\<close> is \<open>return false\<close>, \<open>Some m\<close> sets \<open>*pMax\<close>.\<close>

definition GetLimitMax :: "Compiler \<Rightarrow> Limit \<Rightarrow> int32 option" where
  "GetLimitMax C limit =
     (case type limit of
        keConstant \<Rightarrow> Some (cns limit)
      | keBinOpArray \<Rightarrow>
          (let tmp = (if GetArrLength C (vn limit) \<le>s 0 then ARRLEN_MAX
                      else GetArrLength C (vn limit))
           in if IntAddOverflows tmp (cns limit) then None else Some (tmp + cns limit))
      | keArray \<Rightarrow>
          Some (if GetArrLength C (vn limit) \<le>s 0 then ARRLEN_MAX
                else GetArrLength C (vn limit))
      | keSsaVar \<Rightarrow>
          (if IsVNConstant C (vn limit) \<and> TypeOfVN C (vn limit) = TYP_INT
           then Some (ConstantValueInt C (vn limit)) else None)
      | keBinOp \<Rightarrow>
          (if IsVNConstant C (vn limit) \<and> TypeOfVN C (vn limit) = TYP_INT
           then (if IntAddOverflows (ConstantValueInt C (vn limit)) (cns limit) then None
                 else Some (ConstantValueInt C (vn limit) + cns limit))
           else None)
      | _ \<Rightarrow> None)"

definition AddOverflows :: "Compiler \<Rightarrow> Limit \<Rightarrow> Limit \<Rightarrow> bool" where
  "AddOverflows C limit1 limit2 =
     (case GetLimitMax C limit1 of
        None \<Rightarrow> True
      | Some max1 \<Rightarrow>
          (case GetLimitMax C limit2 of
             None \<Rightarrow> True
           | Some max2 \<Rightarrow> IntAddOverflows max1 max2))"

text \<open>
  As for the range engine, every cycle of calls passes through \<open>DoesOverflow\<close>,
  which the other functions take as their first argument. \<open>DoesBinOpOverflow\<close>
  holds pointers into the range cache while it merges assertions, so the merge
  updates the cached range.
\<close>

type_synonym doesOverflow_fn = "block \<Rightarrow> tree \<Rightarrow> RangeCheck \<Rightarrow> (bool \<times> RangeCheck) res"

definition MergeAssertionIfDependent :: "Compiler \<Rightarrow> block \<Rightarrow> tree \<Rightarrow> RangeCheck \<Rightarrow> RangeCheck" where
  "MergeAssertionIfDependent C blk op s =
     (case m_pRangeMap s op of
        None \<Rightarrow> s
      | Some r \<Rightarrow>
          if IsDependent (uLimit r)
          then s\<lparr>m_pRangeMap := (m_pRangeMap s)(op \<mapsto> MergeAssertion C (m_pCurBndsChk s) blk op r)\<rparr>
          else s)"

definition DoesBinOpOverflow ::
  "doesOverflow_fn \<Rightarrow> Compiler \<Rightarrow> block \<Rightarrow> tree \<Rightarrow> tree \<Rightarrow> RangeCheck \<Rightarrow> (bool \<times> RangeCheck) res" where
  "DoesBinOpOverflow doesOverflow C blk op1 op2 s =
     (case (if \<not> path_Lookup (path s) op1 then doesOverflow blk op1 s else Inr (False, s)) of
        Inl f \<Rightarrow> Inl f
      | Inr (o1, s1) \<Rightarrow>
          if o1 then Inr (True, s1)
          else
            (case (if \<not> path_Lookup (path s1) op2 then doesOverflow blk op2 s1
                   else Inr (False, s1)) of
               Inl f \<Rightarrow> Inl f
             | Inr (o2, s2) \<Rightarrow>
                 if o2 then Inr (True, s2)
                 else if m_pRangeMap s2 op1 = None then Inr (True, s2)
                 else if m_pRangeMap s2 op2 = None then Inr (True, s2)
                 else
                   (let s3 = MergeAssertionIfDependent C blk op1 s2;
                        s4 = MergeAssertionIfDependent C blk op2 s3
                    in case (m_pRangeMap s4 op1, m_pRangeMap s4 op2) of
                         (Some op1Range, Some op2Range) \<Rightarrow>
                           Inr (AddOverflows C (uLimit op1Range) (uLimit op2Range), s4)
                       | _ \<Rightarrow> Inr (True, s4))))"

definition DoesVarDefOverflow ::
  "doesOverflow_fn \<Rightarrow> Compiler \<Rightarrow> block \<Rightarrow> tree \<Rightarrow> RangeCheck \<Rightarrow> (bool \<times> RangeCheck) res" where
  "DoesVarDefOverflow doesOverflow C blk expr s =
     (case GetDef C expr of
        None \<Rightarrow> Inr (True, s)
      | Some loc \<Rightarrow>
          (let asg = node C (loc_parent loc) in
           if gtOper asg = GT_ASG then doesOverflow (loc_block loc) (gtOp2 asg) s
           else if gtOper asg = GT_ASG_ADD then
             DoesBinOpOverflow doesOverflow C (loc_block loc) (gtOp1 asg) (gtOp2 asg) s
           else Inr (True, s)))"

fun DoesPhiOverflow ::
  "doesOverflow_fn \<Rightarrow> Compiler \<Rightarrow> block \<Rightarrow> tree list \<Rightarrow> RangeCheck \<Rightarrow> (bool \<times> RangeCheck) res" where
  "DoesPhiOverflow doesOverflow C blk [] s = Inr (False, s)"
| "DoesPhiOverflow doesOverflow C blk (a # args) s =
     (if path_Lookup (path s) a then DoesPhiOverflow doesOverflow C blk args s
      else
        (case doesOverflow blk a s of
           Inl f \<Rightarrow> Inl f
         | Inr (ov, s1) \<Rightarrow>
             if ov then Inr (True, s1) else DoesPhiOverflow doesOverflow C blk args s1))"

definition ComputeDoesOverflow ::
  "doesOverflow_fn \<Rightarrow> Compiler \<Rightarrow> block \<Rightarrow> tree \<Rightarrow> RangeCheck \<Rightarrow> (bool \<times> RangeCheck) res" where
  "ComputeDoesOverflow doesOverflow C blk expr s =
     (let s1 = s\<lparr>path := path_Set expr (path s)\<rparr>;
          e = node C expr
      in case
           (if length (path s1) > MAX_SEARCH_DEPTH then Inr (True, s1)
            else if IsVNConstant C (gtVN e) then Inr (False, s1)
            else if isLocal e then DoesVarDefOverflow doesOverflow C blk expr s1
            else if gtOper e = GT_ADD then
              DoesBinOpOverflow doesOverflow C blk (gtOp1 e) (gtOp2 e) s1
            else if gtOper e = GT_PHI then DoesPhiOverflow doesOverflow C blk (phiArgs e) s1
            else Inr (True, s1))
         of
           Inl f \<Rightarrow> Inl f
         | Inr (overflows, s2) \<Rightarrow>
             Inr (overflows,
                  s2\<lparr>m_pOverflowMap := (m_pOverflowMap s2)(expr \<mapsto> overflows),
                     path := path_Remove expr (path s2)\<rparr>))"

primrec DoesOverflow :: "nat \<Rightarrow> Compiler \<Rightarrow> doesOverflow_fn" where
  "DoesOverflow 0 C = (\<lambda>blk expr s. Inl OutOfFuel)"
| "DoesOverflow (Suc n) C =
     (\<lambda>blk expr s.
        case m_pOverflowMap s expr of
          Some overflows \<Rightarrow> Inr (overflows, s)
        | None \<Rightarrow> ComputeDoesOverflow (DoesOverflow n C) C blk expr s)"

subsection \<open>The monotonicity prover\<close>

text \<open>
  The prover touches no member of \<open>RangeCheck\<close>, only the search path it is
  given; it returns the verdict and the path as it leaves it. The scoped
  \<open>finally\<close> of the source removes \<open>expr\<close> on every return that follows the
  \<open>Set\<close>.
\<close>

type_synonym isMono_fn = "tree \<Rightarrow> tree list \<Rightarrow> (bool \<times> tree list) res"

definition IsBinOpMonotonicallyIncreasing ::
  "isMono_fn \<Rightarrow> Compiler \<Rightarrow> tree \<Rightarrow> tree \<Rightarrow> genTreeOps \<Rightarrow> tree list \<Rightarrow> (bool \<times> tree list) res" where
  "IsBinOpMonotonicallyIncreasing isMono C op1 op2 oper p =
     (let (a, b) = (if gtOper (node C op2) = GT_LCL_VAR then (op2, op1) else (op1, op2)) in
      if gtOper (node C a) \<noteq> GT_LCL_VAR then Inr (False, p)
      else if gtOper (node C b) = GT_LCL_VAR then
        (case isMono a p of
           Inl f \<Rightarrow> Inl f
         | Inr (r1, p1) \<Rightarrow> if r1 then isMono b p1 else Inr (False, p1))
      else if gtOper (node C b) = GT_CNS_INT then
        (if oper = GT_ADD \<and> 0 \<le> gtIconVal (node C b) then isMono a p else Inr (False, p))
      else Inr (False, p))"

fun IsPhiMonotonicallyIncreasing :: "isMono_fn \<Rightarrow> tree list \<Rightarrow> tree list \<Rightarrow> (bool \<times> tree list) res" where
  "IsPhiMonotonicallyIncreasing isMono [] p = Inr (True, p)"
| "IsPhiMonotonicallyIncreasing isMono (a # args) p =
     (if path_Lookup p a then IsPhiMonotonicallyIncreasing isMono args p
      else
        (case isMono a p of
           Inl f \<Rightarrow> Inl f
         | Inr (r, p1) \<Rightarrow>
             if r then IsPhiMonotonicallyIncreasing isMono args p1 else Inr (False, p1)))"

definition IsMonotonicallyIncreasing_body ::
  "isMono_fn \<Rightarrow> Compiler \<Rightarrow> tree \<Rightarrow> tree list \<Rightarrow> (bool \<times> tree list) res" where
  "IsMonotonicallyIncreasing_body isMono C expr p =
     (let e = node C expr in
      if length p > MAX_SEARCH_DEPTH then Inr (False, p)
      else if IsVNConstant C (gtVN e) then Inr (True, p)
      else if isLocal e then
        (case GetDef C expr of
           None \<Rightarrow> Inr (False, p)
         | Some loc \<Rightarrow>
             (let asg = node C (loc_parent loc) in
              if gtOper asg = GT_ASG then isMono (gtOp2 asg) p
              else if gtOper asg = GT_ASG_ADD then
                IsBinOpMonotonicallyIncreasing isMono C (gtOp1 asg) (gtOp2 asg) GT_ADD p
              else Inr (False, p)))
      else if gtOper e = GT_ADD then
        IsBinOpMonotonicallyIncreasing isMono C (gtOp1 e) (gtOp2 e) GT_ADD p
      else if gtOper e = GT_PHI then IsPhiMonotonicallyIncreasing isMono (phiArgs e) p
      else Inr (False, p))"

primrec IsMonotonicallyIncreasing :: "nat \<Rightarrow> Compiler \<Rightarrow> isMono_fn" where
  "IsMonotonicallyIncreasing 0 C = (\<lambda>expr p. Inl OutOfFuel)"
| "IsMonotonicallyIncreasing (Suc n) C =
     (\<lambda>expr p.
        if path_Lookup p expr then Inr (True, p)
        else
          (case IsMonotonicallyIncreasing_body (IsMonotonicallyIncreasing n C) C expr
                  (path_Set expr p) of
             Inl f \<Rightarrow> Inl f
           | Inr (r, p1) \<Rightarrow> Inr (r, path_Remove expr p1)))"

subsection \<open>The driver\<close>

definition Widen :: "nat \<Rightarrow> Compiler \<Rightarrow> block \<Rightarrow> tree \<Rightarrow> Range \<Rightarrow> RangeCheck \<Rightarrow> (Range \<times> RangeCheck) res" where
  "Widen n C blk t r s =
     (if IsDependent (lLimit r) \<or> IsUnknown (lLimit r) then
        (case IsMonotonicallyIncreasing n C t (path s) of
           Inl f \<Rightarrow> Inl f
         | Inr (increasing, p1) \<Rightarrow>
             if increasing
             then GetRange n C blk t True (s\<lparr>path := p1, m_pRangeMap := Map.empty\<rparr>)
             else Inr (r, s\<lparr>path := p1\<rparr>))
      else Inr (r, s))"

text \<open>
  The constant-index test at the head of \<open>OptimizeRangeCheck\<close>: \<open>Some True\<close>
  is the removal, \<open>Some False\<close> the plain \<open>return\<close>, \<open>None\<close> falls through
  to the analysis.
\<close>

definition ConstantIndexCheck :: "Compiler \<Rightarrow> tree \<Rightarrow> bool option" where
  "ConstantIndexCheck C bndsChk =
     (let treeIndex = gtIndex (node C bndsChk);
          idxVn = gtVN (node C treeIndex);
          arrLenVn = gtVN (node C (gtArrLen (node C bndsChk)));
          arrSize =
            (if IsVNConstant C arrLenVn then
               (case optIsTreeKnownIntValue C (gtArrLen (node C bndsChk)) of
                  Some v \<Rightarrow> to_int32 v
                | None \<Rightarrow> 0)
             else GetArrLength C arrLenVn)
      in if IsVNConstant C idxVn \<and> 0 <s arrSize then
           (case optIsTreeKnownIntValue C treeIndex of
              None \<Rightarrow> Some False
            | Some idxVal \<Rightarrow>
                if 0 <s arrSize \<and> idxVal < sint arrSize \<and> 0 \<le> idxVal then Some True else None)
         else None)"

text \<open>
  The rest of \<open>OptimizeRangeCheck\<close>, from the clearing of the two caches on. The
  result says whether \<open>optRemoveRangeCheck\<close> was called.
\<close>

definition AnalyzeRangeCheck :: "nat \<Rightarrow> Compiler \<Rightarrow> block \<Rightarrow> tree \<Rightarrow> RangeCheck \<Rightarrow> (bool \<times> RangeCheck) res" where
  "AnalyzeRangeCheck n C blk bndsChk s =
     (let treeIndex = gtIndex (node C bndsChk) in
      case GetRange n C blk treeIndex False
             (s\<lparr>m_pRangeMap := Map.empty, m_pOverflowMap := Map.empty, path := []\<rparr>) of
        Inl f \<Rightarrow> Inl f
      | Inr (r, s1) \<Rightarrow>
          if IsUnknown (uLimit r) \<or> IsUnknown (lLimit r) then Inr (False, s1)
          else
            (case DoesOverflow n C blk treeIndex s1 of
               Inl f \<Rightarrow> Inl f
             | Inr (overflows, s2) \<Rightarrow>
                 if overflows then Inr (False, s2)
                 else
                   (case Widen n C blk treeIndex r (s2\<lparr>path := []\<rparr>) of
                      Inl f \<Rightarrow> Inl f
                    | Inr (r', s3) \<Rightarrow>
                        if IsUnknown (uLimit r') \<or> IsUnknown (lLimit r') then Inr (False, s3)
                        else Inr (BetweenBounds C r' 0 (gtArrLen (node C bndsChk)), s3))))"

definition OptimizeRangeCheck :: "nat \<Rightarrow> Compiler \<Rightarrow> block \<Rightarrow> stmt \<Rightarrow> tree \<Rightarrow> RangeCheck \<Rightarrow> (bool \<times> RangeCheck) res" where
  "OptimizeRangeCheck n C blk st treeParent s =
     (if gtOper (node C treeParent) \<noteq> GT_COMMA then Inr (False, s)
      else if gtOper (node C (gtOp1 (node C treeParent))) \<noteq> GT_ARR_BOUNDS_CHECK then Inr (False, s)
      else
        (let bndsChk = gtOp1 (node C treeParent);
             s0 = s\<lparr>m_pCurBndsChk := bndsChk\<rparr>
         in case ConstantIndexCheck C bndsChk of
              Some removed \<Rightarrow> Inr (removed, s0)
            | None \<Rightarrow> AnalyzeRangeCheck n C blk bndsChk s0))"

text \<open>
  \<open>OptimizeRangeChecks\<close>. The three nested loops run over \<open>MethodTrees\<close>; the
  \<open>return\<close> on \<open>IsOverBudget\<close> leaves all of them. The IR is read-only in the
  model: each call of \<open>optRemoveRangeCheck (treeParent, stmt)\<close> is recorded in
  the list that the driver returns, in the order of the calls.
\<close>

definition MethodTrees :: "Compiler \<Rightarrow> (block \<times> stmt \<times> tree) list" where
  "MethodTrees C =
     concat (map (\<lambda>b. concat (map (\<lambda>st. map (\<lambda>t. (b, st, t)) (gtStmtList C st))
                                    (bbTreeList (bb C b))))
                 (fgBBs C))"

fun OptimizeRangeChecks_loop ::
  "nat \<Rightarrow> Compiler \<Rightarrow> (block \<times> stmt \<times> tree) list \<Rightarrow> RangeCheck \<Rightarrow> ((tree \<times> stmt) list \<times> RangeCheck) res" where
  "OptimizeRangeChecks_loop n C [] s = Inr ([], s)"
| "OptimizeRangeChecks_loop n C ((blk, st, t) # rest) s =
     (if IsOverBudget s then Inr ([], s)
      else
        (case OptimizeRangeCheck n C blk st t s of
           Inl f \<Rightarrow> Inl f
         | Inr (removed, s1) \<Rightarrow>
             (case OptimizeRangeChecks_loop n C rest s1 of
                Inl f \<Rightarrow> Inl f
              | Inr (rm, s2) \<Rightarrow> Inr ((if removed then [(t, st)] else []) @ rm, s2))))"

definition RangeCheck_init :: RangeCheck where
  "RangeCheck_init =
     \<lparr>m_nVisitBudget = MAX_VISIT_BUDGET, m_pRangeMap = Map.empty,
      m_pOverflowMap = Map.empty, m_pCurBndsChk = 0, path = []\<rparr>"

definition OptimizeRangeChecks :: "nat \<Rightarrow> Compiler \<Rightarrow> RangeCheck \<Rightarrow> ((tree \<times> stmt) list \<times> RangeCheck) res" where
  "OptimizeRangeChecks n C s =
     (if fgSsaPassesCompleted C = 0 then Inr ([], s)
      else OptimizeRangeChecks_loop n C (MethodTrees C) s)"

subsection \<open>The maximum of a limit in the words of the specification\<close>

text \<open>
  What the specification says the overflow engine takes as the largest value of
  an upper limit, over the integers: a Constant is its value; an Array over the
  array \<open>v\<close> is the allocated length of \<open>v\<close>, the answer of the new-array size
  query on \<open>v\<close>, when it is statically known (positive) and \<open>INT_MAX\<close>
  otherwise; a BinOpArray is that plus its offset; an SsaVar or BinOp has a
  maximum only if its value number is a 32-bit constant. \<open>SpecLimitMax C l m\<close>
  says that \<open>m\<close> is such a maximum of \<open>l\<close>. The value number of an Array or
  BinOpArray limit is the array reference: the assertion merger and
  \<open>BetweenBounds\<close> compare it with the array reference of the bounds check.
\<close>

definition ArrLenOrIntMax :: "Compiler \<Rightarrow> ValueNum \<Rightarrow> int" where
  "ArrLenOrIntMax C v = (if 0 < sint (GetNewArrSize C v) then sint (GetNewArrSize C v) else INT_MAX)"

definition SpecLimitMax :: "Compiler \<Rightarrow> Limit \<Rightarrow> int \<Rightarrow> bool" where
  "SpecLimitMax C l m =
     ((type l = keConstant \<and> m = sint (cns l))
      \<or> (type l = keArray \<and> m = ArrLenOrIntMax C (vn l))
      \<or> (type l = keBinOpArray \<and> m = ArrLenOrIntMax C (vn l) + sint (cns l))
      \<or> ((type l = keSsaVar \<or> type l = keBinOp)
          \<and> IsVNConstant C (vn l) \<and> TypeOfVN C (vn l) = TYP_INT))"

subsection \<open>The range cache and 64-bit expressions\<close>

text \<open>
  The property of the range cache that the range engine keeps for 64-bit
  expressions: every cached range of an expression of type \<open>TYP_LONG\<close> or
  \<open>TYP_ULONG\<close> is Unknown. It holds of the empty cache, with which the
  analysis of each bounds check starts.
\<close>

definition IsLongType :: "Compiler \<Rightarrow> tree \<Rightarrow> bool" where
  "IsLongType C e = (gtType (node C e) = TYP_LONG \<or> gtType (node C e) = TYP_ULONG)"

definition LongsUnknown :: "Compiler \<Rightarrow> RangeCheck \<Rightarrow> bool" where
  "LongsUnknown C s = (\<forall>e r. m_pRangeMap s e = Some r \<and> IsLongType C e \<longrightarrow> r = UnknownRange)"

subsection \<open>A method to run the pass on\<close>

text \<open>
  The compiler \<open>ExC\<close> holds five bounds checks, four on the array whose length has
  value number 20 (array reference 21, allocated size not known).
  \<^item> Nodes 1 to 18: \<open>for (i = 0; i < n; i++) use(a[i])\<close>. Node 1 is the comma over
    the check 2 with index 3 (a use of \<open>i\<close>, SSA number 1). The definition of that
    SSA number is the assignment 5 of the phi 7 with arguments 8 (\<open>i = 0\<close>,
    assignment 10) and 9 (\<open>i = i + 1\<close>, assignment 13 of the addition 15 of the
    use 16 and the constant 17). Node 18 is the constant \<open>-1\<close>. The loop body is
    block 2, entered under the assertions 1 (\<open>i \<ge> 0\<close>) and 2 (\<open>i < a.Length\<close>).
  \<^item> Nodes 21 to 29: \<open>j = c ? 1 : 2; if (j \<ge> 0 && j < a.Length) use(a[j])\<close>. Node
    21 is the comma over the check 22 with index 23; the definition of \<open>j\<close> is the
    assignment 25 of the phi 27 of two constants. The use is in block 3, entered
    under the assertions 3 (\<open>j \<ge> 0\<close>) and 4 (\<open>j < a.Length\<close>).
  \<^item> Nodes 31 to 33: a check whose index 33 is a local of type \<open>TYP_LONG\<close>.
  \<^item> Nodes 41 to 44: \<open>use(b[2])\<close> with \<open>b.Length\<close> the constant 5.
  \<^item> Nodes 51 to 53: a check on \<open>b\<close> whose index 53 has type \<open>TYP_LONG\<close> and
    the value number of the 32-bit constant 2.
  Assertions 5 to 8 are \<open>i < INT_MIN\<close>, \<open>i > 0\<close>, \<open>i > INT_MAX\<close> and \<open>i < 100\<close>.
\<close>

definition mkNode :: "genTreeOps \<Rightarrow> var_types \<Rightarrow> ValueNum \<Rightarrow> GenTree" where
  "mkNode oper ty v =
     \<lparr>gtOper = oper, gtType = ty, gtVN = v, gtOp1 = 0, gtOp2 = 0, phiArgs = [],
      isLocal = (oper = GT_LCL_VAR \<or> oper = GT_PHI_ARG), gtLclNum = 0, gtSsaNum = 0,
      gtIconVal = 0, gtPredBB = 0, gtIndex = 0, gtArrLen = 0\<rparr>"

definition mkLcl :: "genTreeOps \<Rightarrow> ValueNum \<Rightarrow> nat \<Rightarrow> nat \<Rightarrow> GenTree" where
  "mkLcl oper v l n = (mkNode oper TYP_INT v)\<lparr>gtLclNum := l, gtSsaNum := n\<rparr>"

definition ex_node :: "tree \<Rightarrow> GenTree" where
  "ex_node t =
     (if t = 1 then (mkNode GT_COMMA TYP_INT 0)\<lparr>gtOp1 := 2\<rparr>
      else if t = 2 then (mkNode GT_ARR_BOUNDS_CHECK TYP_OTHER 0)\<lparr>gtIndex := 3, gtArrLen := 4\<rparr>
      else if t = 3 then mkLcl GT_LCL_VAR 10 0 1
      else if t = 4 then mkNode GT_OTHER TYP_INT 20
      else if t = 5 then (mkNode GT_ASG TYP_INT 0)\<lparr>gtOp1 := 6, gtOp2 := 7\<rparr>
      else if t = 6 then mkLcl GT_LCL_VAR 10 0 1
      else if t = 7 then (mkNode GT_PHI TYP_INT 10)\<lparr>phiArgs := [8, 9]\<rparr>
      else if t = 8 then (mkLcl GT_PHI_ARG 11 0 2)\<lparr>gtPredBB := 0\<rparr>
      else if t = 9 then (mkLcl GT_PHI_ARG 12 0 3)\<lparr>gtPredBB := 2\<rparr>
      else if t = 10 then (mkNode GT_ASG TYP_INT 0)\<lparr>gtOp1 := 11, gtOp2 := 12\<rparr>
      else if t = 11 then mkLcl GT_LCL_VAR 11 0 2
      else if t = 12 then mkNode GT_CNS_INT TYP_INT 11
      else if t = 13 then (mkNode GT_ASG TYP_INT 0)\<lparr>gtOp1 := 14, gtOp2 := 15\<rparr>
      else if t = 14 then mkLcl GT_LCL_VAR 12 0 3
      else if t = 15 then (mkNode GT_ADD TYP_INT 12)\<lparr>gtOp1 := 16, gtOp2 := 17\<rparr>
      else if t = 16 then mkLcl GT_LCL_VAR 10 0 1
      else if t = 17 then (mkNode GT_CNS_INT TYP_INT 13)\<lparr>gtIconVal := 1\<rparr>
      else if t = 18 then (mkNode GT_CNS_INT TYP_INT 17)\<lparr>gtIconVal := - 1\<rparr>
      else if t = 21 then (mkNode GT_COMMA TYP_INT 0)\<lparr>gtOp1 := 22\<rparr>
      else if t = 22 then (mkNode GT_ARR_BOUNDS_CHECK TYP_OTHER 0)\<lparr>gtIndex := 23, gtArrLen := 4\<rparr>
      else if t = 23 then mkLcl GT_LCL_VAR 14 1 1
      else if t = 25 then (mkNode GT_ASG TYP_INT 0)\<lparr>gtOp1 := 26, gtOp2 := 27\<rparr>
      else if t = 26 then mkLcl GT_LCL_VAR 14 1 1
      else if t = 27 then (mkNode GT_PHI TYP_INT 14)\<lparr>phiArgs := [28, 29]\<rparr>
      else if t = 28 then (mkLcl GT_PHI_ARG 15 1 2)\<lparr>gtPredBB := 0\<rparr>
      else if t = 29 then (mkLcl GT_PHI_ARG 16 1 3)\<lparr>gtPredBB := 0\<rparr>
      else if t = 31 then (mkNode GT_COMMA TYP_INT 0)\<lparr>gtOp1 := 32\<rparr>
      else if t = 32 then (mkNode GT_ARR_BOUNDS_CHECK TYP_OTHER 0)\<lparr>gtIndex := 33, gtArrLen := 4\<rparr>
      else if t = 33 then (mkLcl GT_LCL_VAR 18 2 1)\<lparr>gtType := TYP_LONG\<rparr>
      else if t = 41 then (mkNode GT_COMMA TYP_INT 0)\<lparr>gtOp1 := 42\<rparr>
      else if t = 42 then (mkNode GT_ARR_BOUNDS_CHECK TYP_OTHER 0)\<lparr>gtIndex := 43, gtArrLen := 44\<rparr>
      else if t = 43 then (mkNode GT_CNS_INT TYP_INT 40)\<lparr>gtIconVal := 2\<rparr>
      else if t = 44 then mkNode GT_OTHER TYP_INT 41
      else if t = 51 then (mkNode GT_COMMA TYP_INT 0)\<lparr>gtOp1 := 52\<rparr>
      else if t = 52 then (mkNode GT_ARR_BOUNDS_CHECK TYP_OTHER 0)\<lparr>gtIndex := 53, gtArrLen := 44\<rparr>
      else if t = 53 then (mkNode GT_CNS_INT TYP_LONG 40)\<lparr>gtIconVal := 2\<rparr>
      else mkNode GT_OTHER TYP_OTHER 0)"

definition mkBlock :: "nat \<Rightarrow> nat list \<Rightarrow> stmt list \<Rightarrow> BasicBlock" where
  "mkBlock n ain stmts =
     \<lparr>bbNum = n, bbNext = Some (n + 1), bbJumpKind = BBJ_NONE, bbJumpDest = None,
      bbFallsThrough = True, bbAssertionIn = ain, bbAssertionOut = [], bbTreeList = stmts\<rparr>"

definition ex_bb :: "block \<Rightarrow> BasicBlock" where
  "ex_bb b =
     (if b = 2 then (mkBlock 2 [0, 1] [0])\<lparr>bbJumpKind := BBJ_ALWAYS, bbJumpDest := Some 1, bbFallsThrough := False\<rparr>
      else if b = 3 then mkBlock 3 [2, 3] [1]
      else mkBlock b [] [])"

definition mkAssertion :: "ValueNum \<Rightarrow> bool \<Rightarrow> bool \<Rightarrow> AssertionDsc" where
  "mkAssertion v isArr isCns =
     \<lparr>assertionKind = OAK_NOT_EQUAL, op1_vn = v, op2_vn = 0,
      IsArrLenArithBound = False, IsArrLenBound = isArr, IsConstantBound = isCns\<rparr>"

definition ex_assertion :: "nat \<Rightarrow> AssertionDsc" where
  "ex_assertion i =
     (if i = 1 then mkAssertion 30 False True
      else if i = 2 then mkAssertion 31 True False
      else if i = 3 then mkAssertion 32 False True
      else if i = 4 then mkAssertion 33 True False
      else if i = 5 then mkAssertion 34 False True
      else if i = 6 then mkAssertion 35 False True
      else if i = 7 then mkAssertion 36 False True
      else if i = 8 then mkAssertion 37 False True
      else mkAssertion 0 False False)"

definition ExC :: Compiler where
  "ExC =
     \<lparr>node = ex_node, bb = ex_bb, fgBBs = [0, 1, 2, 3],
      gtStmtList = (\<lambda>st. if st = 0 then [3, 4, 2, 1] else if st = 1 then [23, 4, 22, 21] else []),
      fgSsaPassesCompleted = 1, bbJtrueAssertionOut = None,
      optGetAssertion = ex_assertion,
      ssaVN = (\<lambda>l n. if l = 0 then (if n = 1 then 10 else if n = 2 then 11 else 12)
                      else (if n = 1 then 14 else if n = 2 then 15 else 16)),
      defTable = (\<lambda>k. if k = (0, 1) then Some \<lparr>loc_block = 1, loc_stmt = 2, loc_tree = 6, loc_parent = 5\<rparr>
                      else if k = (0, 2) then Some \<lparr>loc_block = 0, loc_stmt = 3, loc_tree = 11, loc_parent = 10\<rparr>
                      else if k = (0, 3) then Some \<lparr>loc_block = 2, loc_stmt = 4, loc_tree = 14, loc_parent = 13\<rparr>
                      else if k = (1, 1) then Some \<lparr>loc_block = 3, loc_stmt = 5, loc_tree = 26, loc_parent = 25\<rparr>
                      else None),
      RESERVED_SSA_NUM = 0, NoVN = 99,
      IsVNConstant = (\<lambda>v. v = 11 \<or> v = 13 \<or> v = 15 \<or> v = 16 \<or> v = 17
                          \<or> v = 40 \<or> v = 41),
      TypeOfVN = (\<lambda>v. if v = 18 then TYP_LONG else TYP_INT),
      ConstantValueInt = (\<lambda>v. if v = 11 then 0 else if v = 13 then 1 else if v = 15 then 1
                              else if v = 17 then - 1 else if v = 41 then 5 else 2),
      IsVNArrLen = (\<lambda>v. v = 20),
      GetArrForLenVn = (\<lambda>v. if v = 20 then 21 else 99),
      GetNewArrSize = (\<lambda>v. 0),
      VNZeroForTypeInt = 0,
      GetArrLenArithBoundInfo = (\<lambda>v. \<lparr>vnArray = 99, arrOper = GT_NONE, arrOp = 99, cmpOper = GT_NONE, cmpOp = 99\<rparr>),
      GetArrLenBoundInfo = (\<lambda>v. \<lparr>vnArray = 21, arrOper = GT_NONE, arrOp = 99, cmpOper = GT_LT,
                                   cmpOp = (if v = 31 then 10 else 14)\<rparr>),
      GetConstantBoundInfo =
        (\<lambda>v. if v = 34 then \<lparr>cb_constVal = 0x80000000, cb_cmpOper = GT_LT, cb_cmpOpVN = 10\<rparr>
             else if v = 35 then \<lparr>cb_constVal = 0, cb_cmpOper = GT_GT, cb_cmpOpVN = 10\<rparr>
             else if v = 36 then \<lparr>cb_constVal = 0x7FFFFFFF, cb_cmpOper = GT_GT, cb_cmpOpVN = 10\<rparr>
             else if v = 37 then \<lparr>cb_constVal = 100, cb_cmpOper = GT_LT, cb_cmpOpVN = 10\<rparr>
             else \<lparr>cb_constVal = 0, cb_cmpOper = GT_GE, cb_cmpOpVN = (if v = 30 then 10 else 14)\<rparr>)\<rparr>"


definition ex_ranges :: "tree \<Rightarrow> Range option" where
  "ex_ranges t =
     (if t = 16 then Some \<lparr>lLimit = Limit2 keConstant 0, uLimit = Limit3 keBinOpArray 21 (- 1)\<rparr>
      else if t = 17 then Some (Range1 (Limit2 keConstant 1))
      else None)"

text \<open>
  \<open>ExC_alloc\<close> is \<open>ExC\<close> with the array 21 allocated by \<open>new int[5]\<close>: the
  new-array size query answers 5 on the array reference 21. As in \<open>ExC\<close>, 21 is
  the array of the length 20 and is not itself the length of any array.
  \<open>ex_ranges_alloc\<close> caches the ranges \<open>[0, a.Length]\<close> for the use 16 of \<open>i\<close> and
  \<open>[1, 1]\<close> for the constant 17.
\<close>

definition ExC_alloc :: Compiler where
  "ExC_alloc = ExC\<lparr>GetNewArrSize := (\<lambda>v. if v = 21 then 5 else 0)\<rparr>"

definition ex_ranges_alloc :: "tree \<Rightarrow> Range option" where
  "ex_ranges_alloc t =
     (if t = 16 then Some \<lparr>lLimit = Limit2 keConstant 0, uLimit = Limit3 keArray 21 0\<rparr>
      else if t = 17 then Some (Range1 (Limit2 keConstant 1))
      else None)"

text \<open>
  The state of the pass when the analysis of the check 2 (index 3) has gone
  through the phi 7 and its first argument 8 and is about to enter the second
  argument 9: three nodes visited, nodes 3 and 7 on the search path, the range
  of node 8 cached.
\<close>

definition ex_state_at_phi_arg :: RangeCheck where
  "ex_state_at_phi_arg =
     \<lparr>m_nVisitBudget = 8189,
      m_pRangeMap = (\<lambda>t. if t = 8 then Some (Range1 (Limit2 keConstant 0)) else None),
      m_pOverflowMap = Map.empty, m_pCurBndsChk = 2, path = [7, 3]\<rparr>"

text \<open>Reading a result: the search path at return, and the verdict with the budget left.\<close>

definition final_path :: "('a \<times> RangeCheck) res \<Rightarrow> tree list option" where
  "final_path x = (case x of Inl f \<Rightarrow> None | Inr (r, s) \<Rightarrow> Some (path s))"

definition verdict :: "(bool \<times> RangeCheck) res \<Rightarrow> (bool \<times> int) option" where
  "verdict x = (case x of Inl f \<Rightarrow> None | Inr (b, s) \<Rightarrow> Some (b, m_nVisitBudget s))"

section \<open>Properties\<close>

subsection \<open>Auxiliary facts\<close>

lemma sint_add_no_overflow:
  fixes a b :: int32
  assumes "\<not> IntAddOverflows a b"
  shows "sint (a + b) = sint a + sint b"
  using assms
  by (simp add: IntAddOverflows_def INT_MAX_def INT_MIN_def sint_word_add signed_take_bit_int_eq_self)

lemma sint_ARRLEN_MAX: "sint ARRLEN_MAX = INT_MAX"
  by (simp add: ARRLEN_MAX_def INT_MAX_def)

lemma sint32_bounds: "INT_MIN \<le> sint (w::int32)" "sint (w::int32) \<le> INT_MAX"
  using sint_ge [of w] sint_lt [of w] by (simp_all add: INT_MIN_def INT_MAX_def)

lemma to_int32_sint: "to_int32 (sint (w::int32)) = w"
  by (simp add: to_int32_def)

lemmas ex_defs = ExC_def ex_node_def ex_bb_def ex_assertion_def mkNode_def mkLcl_def mkBlock_def
  mkAssertion_def

lemma AddConstant_overflow:
  assumes "IsConstant l \<or> IsBinOpArray l"
    and "sint (cns l) + sint k < INT_MIN \<or> INT_MAX < sint (cns l) + sint k"
  shows "AddConstant l k = (False, l)"
  using assms by (auto simp: AddConstant_def IsConstant_def IsBinOpArray_def IntAddOverflows_def)

lemma AddConstant_ok:
  assumes "AddConstant l k = (True, l')"
  shows "(IsConstant l \<or> IsBinOpArray l \<longrightarrow>
            type l' = type l \<and> vn l' = vn l \<and> sint (cns l') = sint (cns l) + sint k)
       \<and> (IsArray l \<longrightarrow> l' = Limit3 keBinOpArray (vn l) k)"
  using assms
  by (auto simp: AddConstant_def IsConstant_def IsBinOpArray_def IsArray_def Limit3_def
                 sint_add_no_overflow split: if_splits)

lemma AddConstant_no_overflow:
  assumes "IsConstant l \<or> IsBinOpArray l"
    and "INT_MIN \<le> sint (cns l) + sint k" and "sint (cns l) + sint k \<le> INT_MAX"
  shows "AddConstant l k = (True, l\<lparr>cns := cns l + k\<rparr>)"
    and "sint (cns l + k) = sint (cns l) + sint k"
proof -
  from assms(2,3) have n: "\<not> IntAddOverflows (cns l) k"
    by (simp add: IntAddOverflows_def)
  with assms(1) show "AddConstant l k = (True, l\<lparr>cns := cns l + k\<rparr>)"
    by (auto simp: AddConstant_def IsConstant_def IsBinOpArray_def)
  from n show "sint (cns l + k) = sint (cns l) + sint k"
    by (rule sint_add_no_overflow)
qed

lemma AddConstant_array:
  assumes "IsArray l"
  shows "AddConstant l k = (True, Limit3 keBinOpArray (vn l) k)"
  using assms by (simp add: AddConstant_def IsArray_def Limit3_def)

lemma AdjustLimit_LT:
  "AdjustLimit GT_LT l = (if fst (AddConstant l (- 1)) then Some (snd (AddConstant l (- 1))) else None)"
  by (simp add: AdjustLimit_def split: prod.splits)

lemma AdjustLimit_GT:
  "AdjustLimit GT_GT l = (if fst (AddConstant l 1) then Some (snd (AddConstant l 1)) else None)"
  by (simp add: AdjustLimit_def split: prod.splits)

text \<open>
  The loop body of \<open>MergeEdgeAssertions\<close> for an assertion that yields a limit.
\<close>

lemma MergeEdgeAssertions_body_cases:
  assumes "cur = optGetAssertion C (index + 1)"
    and "AssertionLimit C (ssaVN C (gtLclNum (node C lcl)) (gtSsaNum (node C lcl))) cur = Some (limit, oper)"
  shows "MergeEdgeAssertions_body C chk lcl index pRange =
     (if IsUndef limit \<or> op2_vn cur \<noteq> VNZeroForTypeInt C then pRange
      else case AdjustLimit (AdjustedOper cur oper) limit of
             None \<Rightarrow> pRange
           | Some limit' \<Rightarrow>
               if DoesNotTighten (CurArrRefVN C chk) pRange limit' then pRange
               else StoreLimit (AdjustedOper cur oper) limit' pRange)"
proof -
  from assms(2) have "IsArrLenArithBound cur \<or> IsArrLenBound cur \<or> IsConstantBound cur"
    by (auto simp: AssertionLimit_def split: if_splits)
  with assms(2) show ?thesis
    unfolding MergeEdgeAssertions_body_def Let_def assms(1) [symmetric]
    by auto
qed

lemma MergeAssertionIfDependent_Some:
  "m_pRangeMap s x \<noteq> None \<Longrightarrow> m_pRangeMap (MergeAssertionIfDependent C blk op s) x \<noteq> None"
  by (auto simp: MergeAssertionIfDependent_def split: option.splits)

lemma AddOverflows_False:
  assumes "\<not> AddOverflows C l1 l2"
  shows "\<exists>m1 m2. GetLimitMax C l1 = Some m1 \<and> GetLimitMax C l2 = Some m2 \<and> \<not> IntAddOverflows m1 m2"
  using assms by (auto simp: AddOverflows_def split: option.splits)

lemma OptimizeRangeCheck_removed_comma:
  assumes "OptimizeRangeCheck n C blk st t s = Inr (True, s')"
  shows "gtOper (node C t) = GT_COMMA \<and> gtOper (node C (gtOp1 (node C t))) = GT_ARR_BOUNDS_CHECK"
  using assms by (auto simp: OptimizeRangeCheck_def split: if_splits)

lemma OptimizeRangeChecks_loop_removed_comma:
  assumes "OptimizeRangeChecks_loop n C ts s = Inr (removed, s')" and "(t, st) \<in> set removed"
  shows "gtOper (node C t) = GT_COMMA \<and> gtOper (node C (gtOp1 (node C t))) = GT_ARR_BOUNDS_CHECK"
  using assms
proof (induction ts arbitrary: s removed)
  case Nil
  then show ?case by simp
next
  case (Cons x ts)
  obtain blk st' t' where x: "x = (blk, st', t')" by (cases x) auto
  show ?case
  proof (cases "IsOverBudget s")
    case True
    with Cons.prems x show ?thesis by simp
  next
    case False
    with Cons.prems x obtain b s1 rm where
      step: "OptimizeRangeCheck n C blk st' t' s = Inr (b, s1)" and
      rest: "OptimizeRangeChecks_loop n C ts s1 = Inr (rm, s')" and
      rem: "removed = (if b then [(t', st')] else []) @ rm"
      by (auto split: sum.splits prod.splits)
    from Cons.prems(2) rem consider "b" "(t, st) = (t', st')" | "(t, st) \<in> set rm"
      by (auto split: if_splits)
    then show ?thesis
    proof cases
      case 1
      with step OptimizeRangeCheck_removed_comma [of n C blk st' t' s s1] show ?thesis by simp
    next
      case 2
      with Cons.IH rest show ?thesis by blast
    qed
  qed
qed

subsection \<open>The search path across the engines\<close>

lemma path_Set_set: "set (path_Set e p) = insert e (set p)"
  by (auto simp: path_Set_def)

lemma path_Remove_set: "set (path_Remove e p) = set p - {e}"
  by (simp add: path_Remove_def)

lemma ComputeRangeForBinOp_path:
  assumes g: "\<forall>blk e m s r s'. getRange blk e m s = Inr (r, s') \<longrightarrow> set (path s') \<subseteq> set (path s)"
    and c: "ComputeRangeForBinOp getRange C blk op1 op2 m s = Inr (r, s')"
  shows "set (path s') \<subseteq> set (path s)"
proof -
  from c obtain r1 s1 where
    1: "(case m_pRangeMap s op1 of
           Some cached \<Rightarrow> Inr (cached, s)
         | None \<Rightarrow>
             (case (if \<not> path_Lookup (path s) op1 then getRange blk op1 m s
                    else Inr (Range1 (Limit1 keDependent), s)) of
                Inl f \<Rightarrow> Inl f
              | Inr (r, s1) \<Rightarrow> Inr (MergeAssertion C (m_pCurBndsChk s1) blk op1 r, s1))) = Inr (r1, s1)"
    and 2: "(case m_pRangeMap s1 op2 of
                Some cached \<Rightarrow> Inr (cached, s1)
              | None \<Rightarrow>
                  (case (if \<not> path_Lookup (path s1) op2 then getRange blk op2 m s1
                         else Inr (Range1 (Limit1 keDependent), s1)) of
                     Inl f \<Rightarrow> Inl f
                   | Inr (r, s2) \<Rightarrow> Inr (MergeAssertion C (m_pCurBndsChk s2) blk op2 r, s2))) \<noteq> Inl OutOfFuel
          \<or> True"
    and 3: "\<exists>r2. (case m_pRangeMap s1 op2 of
                Some cached \<Rightarrow> Inr (cached, s1)
              | None \<Rightarrow>
                  (case (if \<not> path_Lookup (path s1) op2 then getRange blk op2 m s1
                         else Inr (Range1 (Limit1 keDependent), s1)) of
                     Inl f \<Rightarrow> Inl f
                   | Inr (r, s2) \<Rightarrow> Inr (MergeAssertion C (m_pCurBndsChk s2) blk op2 r, s2))) = Inr (r2, s')"
    by (auto simp: ComputeRangeForBinOp_def Let_def split: sum.splits prod.splits)
  from 1 have a: "set (path s1) \<subseteq> set (path s)"
    by (auto split: option.splits sum.splits if_splits prod.splits dest: g [rule_format])
  from 3 have b: "set (path s') \<subseteq> set (path s1)"
    by (auto split: option.splits sum.splits if_splits prod.splits dest: g [rule_format])
  from a b show ?thesis by blast
qed

lemma ComputeRangeForLocalDef_path:
  assumes g: "\<forall>blk e m s r s'. getRange blk e m s = Inr (r, s') \<longrightarrow> set (path s') \<subseteq> set (path s)"
    and c: "ComputeRangeForLocalDef getRange C blk expr m s = Inr (r, s')"
  shows "set (path s') \<subseteq> set (path s)"
proof -
  consider (same) "s' = s"
    | (asg) blk' e r0 where "getRange blk' e m s = Inr (r0, s')"
    | (add) blk' a b where "ComputeRangeForBinOp getRange C blk' a b m s = Inr (r, s')"
    using c
    by (auto simp: ComputeRangeForLocalDef_def Let_def
             split: option.splits sum.splits if_splits prod.splits)
  then show ?thesis
  proof cases
    case same
    then show ?thesis by simp
  next
    case asg
    then show ?thesis by (rule g [rule_format])
  next
    case add
    then show ?thesis by (rule ComputeRangeForBinOp_path [OF g])
  qed
qed

lemma ComputeRangeForPhi_path:
  assumes g: "\<forall>blk e m s r s'. getRange blk e m s = Inr (r, s') \<longrightarrow> set (path s') \<subseteq> set (path s)"
    and c: "ComputeRangeForPhi getRange C blk args m s = Inr (rs, s')"
  shows "set (path s') \<subseteq> set (path s)"
  using c
proof (induction args arbitrary: s rs)
  case Nil
  then show ?case by simp
next
  case (Cons a args)
  from Cons.prems obtain r1 s1 rs1 where
    1: "(if path_Lookup (path s) a then
           Inr (MergeAssertion C (m_pCurBndsChk s) blk a (Range1 (Limit1 keDependent)), s)
         else
           (case getRange blk a m s of
              Inl f \<Rightarrow> Inl f
            | Inr (r, s1) \<Rightarrow> Inr (MergeAssertion C (m_pCurBndsChk s1) blk a r, s1))) = Inr (r1, s1)"
    and 2: "ComputeRangeForPhi getRange C blk args m s1 = Inr (rs1, s')"
    by (auto split: sum.splits prod.splits)
  from 1 have "set (path s1) \<subseteq> set (path s)"
    by (auto split: sum.splits if_splits prod.splits dest: g [rule_format])
  with Cons.IH [OF 2] show ?case by blast
qed

lemma ComputeRange_dispatch_path:
  assumes g: "\<forall>blk e m s r s'. getRange blk e m s = Inr (r, s') \<longrightarrow> set (path s') \<subseteq> set (path s)"
    and c: "ComputeRange_dispatch getRange C blk expr m s = Inr (r, s')"
  shows "set (path s') \<subseteq> set (path s)"
proof -
  consider (same) "s' = s"
    | (lcl) r0 where "ComputeRangeForLocalDef getRange C blk expr m s = Inr (r0, s')"
    | (add) a b where "ComputeRangeForBinOp getRange C blk a b m s = Inr (r, s')"
    | (phi) args rs where "ComputeRangeForPhi getRange C blk args m s = Inr (rs, s')"
    using c
    by (auto simp: ComputeRange_dispatch_def Let_def split: sum.splits if_splits prod.splits)
  then show ?thesis
  proof cases
    case same
    then show ?thesis by simp
  next
    case lcl
    then show ?thesis by (rule ComputeRangeForLocalDef_path [OF g])
  next
    case add
    then show ?thesis by (rule ComputeRangeForBinOp_path [OF g])
  next
    case phi
    then show ?thesis by (rule ComputeRangeForPhi_path [OF g])
  qed
qed

lemma ComputeRange_path:
  assumes g: "\<forall>blk e m s r s'. getRange blk e m s = Inr (r, s') \<longrightarrow> set (path s') \<subseteq> set (path s)"
    and c: "ComputeRange getRange C blk expr m s = Inr (r, s')"
  shows "set (path s') \<subseteq> set (path s) - {expr}"
proof -
  define s0 where "s0 =
    (if \<not> path_Lookup (path s) expr
     then s\<lparr>path := path_Set expr (path s), m_nVisitBudget := m_nVisitBudget s - 1\<rparr>
     else s\<lparr>path := path_Set expr (path s)\<rparr>)"
  have s0: "set (path s0) = insert expr (set (path s))"
    by (simp add: s0_def path_Set_set)
  from c obtain s2 where
    d: "ComputeRange_dispatch getRange C blk expr m s0 = Inr (r, s2)"
    and s': "set (path s') = set (path s2) - {expr}"
    by (auto simp: ComputeRange_def Let_def s0_def path_Remove_set
             split: sum.splits if_splits prod.splits)
  from ComputeRange_dispatch_path [OF g d] s0 s' show ?thesis by auto
qed

lemma GetRange_path:
  "GetRange n C blk expr m s = Inr (r, s') \<Longrightarrow> set (path s') \<subseteq> set (path s)"
proof (induction n arbitrary: blk expr m s r s')
  case 0
  then show ?case by simp
next
  case (Suc n)
  show ?case
  proof (cases "m_pRangeMap s expr")
    case None
    with Suc.prems have "ComputeRange (GetRange n C) C blk expr m s = Inr (r, s')" by simp
    moreover have "\<forall>blk e m s r s'. GetRange n C blk e m s = Inr (r, s') \<longrightarrow> set (path s') \<subseteq> set (path s)"
      using Suc.IH by blast
    ultimately show ?thesis using ComputeRange_path by blast
  next
    case (Some a)
    with Suc.prems show ?thesis by simp
  qed
qed

lemma MergeAssertionIfDependent_path: "path (MergeAssertionIfDependent C blk op s) = path s"
  by (simp add: MergeAssertionIfDependent_def split: option.splits)

lemma DoesBinOpOverflow_path:
  assumes g: "\<forall>blk e s b s'. doesOverflow blk e s = Inr (b, s') \<longrightarrow> set (path s') \<subseteq> set (path s)"
    and c: "DoesBinOpOverflow doesOverflow C blk op1 op2 s = Inr (b, s')"
  shows "set (path s') \<subseteq> set (path s)"
proof -
  from c obtain o1 s1 where
    1: "(if \<not> path_Lookup (path s) op1 then doesOverflow blk op1 s else Inr (False, s)) = Inr (o1, s1)"
    by (auto simp: DoesBinOpOverflow_def split: sum.splits prod.splits)
  from 1 have a: "set (path s1) \<subseteq> set (path s)"
    by (auto split: if_splits dest: g [rule_format])
  show ?thesis
  proof (cases o1)
    case True
    with c 1 have "s' = s1" by (simp add: DoesBinOpOverflow_def)
    with a show ?thesis by simp
  next
    case False
    with c 1 obtain o2 s2 where
      2: "(if \<not> path_Lookup (path s1) op2 then doesOverflow blk op2 s1 else Inr (False, s1)) = Inr (o2, s2)"
      by (auto simp: DoesBinOpOverflow_def split: sum.splits prod.splits)
    from 2 have b: "set (path s2) \<subseteq> set (path s1)"
      by (auto split: if_splits dest: g [rule_format])
    from c 1 2 False have "path s' = path s2"
      by (auto simp: DoesBinOpOverflow_def Let_def MergeAssertionIfDependent_path
               split: if_splits option.splits)
    with a b show ?thesis by auto
  qed
qed

lemma DoesVarDefOverflow_path:
  assumes g: "\<forall>blk e s b s'. doesOverflow blk e s = Inr (b, s') \<longrightarrow> set (path s') \<subseteq> set (path s)"
    and c: "DoesVarDefOverflow doesOverflow C blk expr s = Inr (b, s')"
  shows "set (path s') \<subseteq> set (path s)"
proof -
  consider (same) "s' = s"
    | (asg) blk' e where "doesOverflow blk' e s = Inr (b, s')"
    | (add) blk' x y where "DoesBinOpOverflow doesOverflow C blk' x y s = Inr (b, s')"
    using c
    by (auto simp: DoesVarDefOverflow_def Let_def split: option.splits if_splits)
  then show ?thesis
  proof cases
    case same
    then show ?thesis by simp
  next
    case asg
    then show ?thesis by (rule g [rule_format])
  next
    case add
    then show ?thesis by (rule DoesBinOpOverflow_path [OF g])
  qed
qed

lemma DoesPhiOverflow_path:
  assumes g: "\<forall>blk e s b s'. doesOverflow blk e s = Inr (b, s') \<longrightarrow> set (path s') \<subseteq> set (path s)"
    and c: "DoesPhiOverflow doesOverflow C blk args s = Inr (b, s')"
  shows "set (path s') \<subseteq> set (path s)"
  using c
proof (induction args arbitrary: s)
  case Nil
  then show ?case by simp
next
  case (Cons a args)
  show ?case
  proof (cases "path_Lookup (path s) a")
    case True
    with Cons show ?thesis by simp
  next
    case False
    with Cons.prems obtain ov s1 where 1: "doesOverflow blk a s = Inr (ov, s1)"
      and 2: "s' = s1 \<or> DoesPhiOverflow doesOverflow C blk args s1 = Inr (b, s')"
      by (auto split: sum.splits prod.splits if_splits)
    from g 1 have "set (path s1) \<subseteq> set (path s)" by blast
    with 2 Cons.IH show ?thesis by blast
  qed
qed

lemma ComputeDoesOverflow_path:
  assumes g: "\<forall>blk e s b s'. doesOverflow blk e s = Inr (b, s') \<longrightarrow> set (path s') \<subseteq> set (path s)"
    and c: "ComputeDoesOverflow doesOverflow C blk expr s = Inr (b, s')"
  shows "set (path s') \<subseteq> set (path s) - {expr}"
proof -
  define s0 where "s0 = s\<lparr>path := path_Set expr (path s)\<rparr>"
  have s0: "set (path s0) = insert expr (set (path s))"
    by (simp add: s0_def path_Set_set)
  from c obtain s2 where s': "set (path s') = set (path s2) - {expr}"
    and d: "(if length (path s0) > MAX_SEARCH_DEPTH then Inr (True, s0)
            else if IsVNConstant C (gtVN (node C expr)) then Inr (False, s0)
            else if isLocal (node C expr) then DoesVarDefOverflow doesOverflow C blk expr s0
            else if gtOper (node C expr) = GT_ADD then
              DoesBinOpOverflow doesOverflow C blk (gtOp1 (node C expr)) (gtOp2 (node C expr)) s0
            else if gtOper (node C expr) = GT_PHI then
              DoesPhiOverflow doesOverflow C blk (phiArgs (node C expr)) s0
            else Inr (True, s0)) = Inr (b, s2)"
    unfolding ComputeDoesOverflow_def Let_def s0_def [symmetric]
    by (auto simp: path_Remove_set split: sum.splits prod.splits)
  from d DoesVarDefOverflow_path [OF g] DoesBinOpOverflow_path [OF g] DoesPhiOverflow_path [OF g]
  have "set (path s2) \<subseteq> set (path s0)"
    by (auto split: if_splits)
  with s0 s' show ?thesis by auto
qed

lemma DoesOverflow_path:
  "DoesOverflow n C blk expr s = Inr (b, s') \<Longrightarrow> set (path s') \<subseteq> set (path s)"
proof (induction n arbitrary: blk expr s b s')
  case 0
  then show ?case by simp
next
  case (Suc n)
  show ?case
  proof (cases "m_pOverflowMap s expr")
    case None
    with Suc.prems have "ComputeDoesOverflow (DoesOverflow n C) C blk expr s = Inr (b, s')" by simp
    moreover have "\<forall>blk e s b s'. DoesOverflow n C blk e s = Inr (b, s') \<longrightarrow> set (path s') \<subseteq> set (path s)"
      using Suc.IH by blast
    ultimately show ?thesis using ComputeDoesOverflow_path by blast
  next
    case (Some a)
    with Suc.prems show ?thesis by simp
  qed
qed

lemma IsBinOpMonotonicallyIncreasing_path:
  assumes g: "\<forall>e p b p'. isMono e p = Inr (b, p') \<longrightarrow> set p' = set p"
    and c: "IsBinOpMonotonicallyIncreasing isMono C op1 op2 oper p = Inr (b, p')"
  shows "set p' = set p"
proof -
  consider (same) "p' = p"
    | (one) x where "isMono x p = Inr (b, p')"
    | (two) x y r1 p1 where "isMono x p = Inr (r1, p1)" "p' = p1 \<or> isMono y p1 = Inr (b, p')"
    using c
    by (auto simp: IsBinOpMonotonicallyIncreasing_def Let_def
             split: sum.splits if_splits prod.splits)
  then show ?thesis
  proof cases
    case same
    then show ?thesis by simp
  next
    case one
    with g show ?thesis by blast
  next
    case two
    with g have "set p1 = set p" by blast
    with two(2) g show ?thesis by blast
  qed
qed

lemma IsPhiMonotonicallyIncreasing_path:
  assumes g: "\<forall>e p b p'. isMono e p = Inr (b, p') \<longrightarrow> set p' = set p"
    and c: "IsPhiMonotonicallyIncreasing isMono args p = Inr (b, p')"
  shows "set p' = set p"
  using c
proof (induction args arbitrary: p)
  case Nil
  then show ?case by simp
next
  case (Cons a args)
  show ?case
  proof (cases "path_Lookup p a")
    case True
    with Cons show ?thesis by simp
  next
    case False
    with Cons.prems obtain r p1 where 1: "isMono a p = Inr (r, p1)"
      and 2: "p' = p1 \<or> IsPhiMonotonicallyIncreasing isMono args p1 = Inr (b, p')"
      by (auto split: sum.splits prod.splits if_splits)
    from g 1 have "set p1 = set p" by blast
    with 2 Cons.IH show ?thesis by blast
  qed
qed

lemma IsMonotonicallyIncreasing_body_path:
  assumes g: "\<forall>e p b p'. isMono e p = Inr (b, p') \<longrightarrow> set p' = set p"
    and c: "IsMonotonicallyIncreasing_body isMono C expr p = Inr (b, p')"
  shows "set p' = set p"
proof -
  from c have "p' = p \<or> (\<exists>x. isMono x p = Inr (b, p'))
      \<or> (\<exists>x y oper. IsBinOpMonotonicallyIncreasing isMono C x y oper p = Inr (b, p'))
      \<or> (\<exists>args. IsPhiMonotonicallyIncreasing isMono args p = Inr (b, p'))"
    by (auto simp: IsMonotonicallyIncreasing_body_def Let_def split: option.splits if_splits)
  with g IsBinOpMonotonicallyIncreasing_path [OF g] IsPhiMonotonicallyIncreasing_path [OF g]
  show ?thesis by blast
qed

lemma IsMonotonicallyIncreasing_path:
  "IsMonotonicallyIncreasing n C expr p = Inr (b, p') \<Longrightarrow> set p' = set p"
proof (induction n arbitrary: expr p b p')
  case 0
  then show ?case by simp
next
  case (Suc n)
  show ?case
  proof (cases "path_Lookup p expr")
    case True
    with Suc.prems show ?thesis by simp
  next
    case False
    with Suc.prems obtain p1 where
      1: "IsMonotonicallyIncreasing_body (IsMonotonicallyIncreasing n C) C expr (path_Set expr p) = Inr (b, p1)"
      and 2: "p' = path_Remove expr p1"
      by (auto split: sum.splits prod.splits)
    have "\<forall>e p b p'. IsMonotonicallyIncreasing n C e p = Inr (b, p') \<longrightarrow> set p' = set p"
      using Suc.IH by blast
    from IsMonotonicallyIncreasing_body_path [OF this 1] have "set p1 = insert expr (set p)"
      by (simp add: path_Set_set)
    with 2 False show ?thesis
      by (auto simp: path_Remove_set path_Lookup_def)
  qed
qed

subsection \<open>Cached ranges of 64-bit expressions\<close>

lemma LongsUnknown_frame:
  "m_pRangeMap s' = m_pRangeMap s \<Longrightarrow> LongsUnknown C s' = LongsUnknown C s"
  by (simp add: LongsUnknown_def)

lemma LongsUnknown_empty: "m_pRangeMap s = Map.empty \<Longrightarrow> LongsUnknown C s"
  by (simp add: LongsUnknown_def)








subsection \<open>The assertion merger\<close>

text \<open>
  Claim C1, as stated, fails where the current upper limit is Constant and the
  new limit is over the array of the bounds check itself: the range with upper
  limit 100 and the assertion \<open>i < a.Length\<close> on the checked array \<open>a\<close> give the
  upper limit \<open>a.Length - 1\<close>; the assertion is stored, not discarded.
\<close>

theorem tightening_tests_counterexample:
  "MergeEdgeAssertions_body ExC 2 3 1 \<lparr>lLimit = Limit2 keConstant 0, uLimit = Limit2 keConstant 100\<rparr>
     = \<lparr>lLimit = Limit2 keConstant 0, uLimit = Limit3 keBinOpArray 21 (- 1)\<rparr>"
  by code_simp

text \<open>
  Claim C1, amended. An assertion that yields an adjusted limit is stored or
  discarded by two tests, both on the current upper limit and on the array of
  the bounds check under analysis (\<open>arrRefVN\<close>). With a Constant upper limit the
  assertion is discarded exactly when the limit's value number is not
  \<open>arrRefVN\<close>, so a limit over the checked array is stored. With an upper limit
  Array or BinOpArray over \<open>arrRefVN\<close> it is discarded when the limit is not
  over \<open>arrRefVN\<close>, and otherwise stored iff its constant offset is strictly
  smaller. With a Dependent or Unknown upper limit it is stored. Storing
  replaces the upper limit for \<open><\<close> and \<open>\<le>\<close> and the lower limit for \<open>>\<close> and
  \<open>\<ge>\<close>; the same tests on the upper limit decide both.
\<close>

theorem tightening_tests:
  assumes "cur = optGetAssertion C (index + 1)"
    and "AssertionLimit C (ssaVN C (gtLclNum (node C lcl)) (gtSsaNum (node C lcl))) cur
           = Some (limit0, oper)"
    and "\<not> IsUndef limit0" and "op2_vn cur = VNZeroForTypeInt C"
    and "AdjustLimit (AdjustedOper cur oper) limit0 = Some limit"
    and "arrRefVN = CurArrRefVN C chk"
    and "new = MergeEdgeAssertions_body C chk lcl index pRange"
    and "stored = StoreLimit (AdjustedOper cur oper) limit pRange"
  shows
   "(IsConstant (uLimit pRange) \<and> vn limit \<noteq> arrRefVN \<longrightarrow> new = pRange)
  \<and> (IsConstant (uLimit pRange) \<and> vn limit = arrRefVN \<longrightarrow> new = stored)
  \<and> ((IsArray (uLimit pRange) \<or> IsBinOpArray (uLimit pRange)) \<and> vn (uLimit pRange) = arrRefVN
       \<and> vn limit \<noteq> arrRefVN \<longrightarrow> new = pRange)
  \<and> ((IsArray (uLimit pRange) \<or> IsBinOpArray (uLimit pRange)) \<and> vn (uLimit pRange) = arrRefVN
       \<and> vn limit = arrRefVN \<longrightarrow>
        new = (if (if IsBinOpArray limit then cns limit else 0)
                    <s (if IsBinOpArray (uLimit pRange) then cns (uLimit pRange) else 0)
               then stored else pRange))
  \<and> (IsDependent (uLimit pRange) \<or> IsUnknown (uLimit pRange) \<longrightarrow> new = stored)
  \<and> (AdjustedOper cur oper = GT_LT \<or> AdjustedOper cur oper = GT_LE
        \<longrightarrow> stored = pRange\<lparr>uLimit := limit\<rparr>)
  \<and> (AdjustedOper cur oper = GT_GT \<or> AdjustedOper cur oper = GT_GE
        \<longrightarrow> stored = pRange\<lparr>lLimit := limit\<rparr>)"
proof -
  have body: "new = (if DoesNotTighten arrRefVN pRange limit then pRange else stored)"
    using MergeEdgeAssertions_body_cases [OF assms(1,2), of chk pRange] assms(3-8)
    by simp
  show ?thesis
    unfolding body
    by (auto simp: DoesNotTighten_def assms(8) StoreLimit_def IsConstant_def IsArray_def
                   IsBinOpArray_def IsDependent_def IsUnknown_def Let_def word_sless_alt word_sle_eq)
qed

theorem tightening_tests_witness:
  "MergeEdgeAssertions_body ExC 2 3 0 \<lparr>lLimit = Limit1 keUnknown, uLimit = Limit2 keConstant 100\<rparr>
     = \<lparr>lLimit = Limit1 keUnknown, uLimit = Limit2 keConstant 100\<rparr>
   \<and> MergeEdgeAssertions_body ExC 2 3 1 \<lparr>lLimit = Limit1 keUnknown, uLimit = Limit3 keBinOpArray 21 0\<rparr>
     = \<lparr>lLimit = Limit1 keUnknown, uLimit = Limit3 keBinOpArray 21 (- 1)\<rparr>
   \<and> MergeEdgeAssertions_body ExC 2 3 0 UnknownRange = UnknownRange\<lparr>lLimit := Limit3 keConstant 99 0\<rparr>"
proof -
  define cur1 where "cur1 = optGetAssertion ExC (0 + 1)"
  define cur2 where "cur2 = optGetAssertion ExC (1 + 1)"
  have a1: "AssertionLimit ExC (ssaVN ExC (gtLclNum (node ExC 3)) (gtSsaNum (node ExC 3))) cur1
              = Some (Limit3 keConstant 99 0, GT_GE)"
    unfolding cur1_def by code_simp
  have a2: "AssertionLimit ExC (ssaVN ExC (gtLclNum (node ExC 3)) (gtSsaNum (node ExC 3))) cur2
               = Some (Limit3 keArray 21 0, GT_LT)"
    unfolding cur2_def by code_simp
  have u1: "\<not> IsUndef (Limit3 keConstant 99 0)" and u2: "\<not> IsUndef (Limit3 keArray 21 0)"
    by (simp_all add: IsUndef_def Limit3_def)
  have z1: "op2_vn cur1 = VNZeroForTypeInt ExC"
    unfolding cur1_def by code_simp
  have z2: "op2_vn cur2 = VNZeroForTypeInt ExC"
    unfolding cur2_def by code_simp
  have o1: "AdjustedOper cur1 GT_GE = GT_GE"
    unfolding cur1_def by code_simp
  have o2: "AdjustedOper cur2 GT_LT = GT_LT"
    unfolding cur2_def by code_simp
  have j1: "AdjustLimit (AdjustedOper cur1 GT_GE) (Limit3 keConstant 99 0) = Some (Limit3 keConstant 99 0)"
    unfolding o1 by code_simp
  have j2: "AdjustLimit (AdjustedOper cur2 GT_LT) (Limit3 keArray 21 0) = Some (Limit3 keBinOpArray 21 (- 1))"
    unfolding o2 by code_simp
  have r: "21 = CurArrRefVN ExC 2"
    by code_simp
  from tightening_tests [OF cur1_def a1 u1 z1 j1 r refl refl,
      of "\<lparr>lLimit = Limit1 keUnknown, uLimit = Limit2 keConstant 100\<rparr>"]
  have 1: "MergeEdgeAssertions_body ExC 2 3 0 \<lparr>lLimit = Limit1 keUnknown, uLimit = Limit2 keConstant 100\<rparr>
     = \<lparr>lLimit = Limit1 keUnknown, uLimit = Limit2 keConstant 100\<rparr>"
    by (simp add: IsConstant_def Limit2_def Limit3_def)
  from tightening_tests [OF cur2_def a2 u2 z2 j2 r refl refl,
      of "\<lparr>lLimit = Limit1 keUnknown, uLimit = Limit3 keBinOpArray 21 0\<rparr>"]
  have 2: "MergeEdgeAssertions_body ExC 2 3 1 \<lparr>lLimit = Limit1 keUnknown, uLimit = Limit3 keBinOpArray 21 0\<rparr>
     = \<lparr>lLimit = Limit1 keUnknown, uLimit = Limit3 keBinOpArray 21 (- 1)\<rparr>"
    by (simp add: IsBinOpArray_def IsArray_def Limit3_def o2 word_sless_alt)
  from tightening_tests [OF cur1_def a1 u1 z1 j1 r refl refl, of UnknownRange]
  have 3: "MergeEdgeAssertions_body ExC 2 3 0 UnknownRange = UnknownRange\<lparr>lLimit := Limit3 keConstant 99 0\<rparr>"
    by (simp add: IsUnknown_def UnknownRange_def Range1_def Limit1_def o1)
  from 1 2 3 show ?thesis by simp
qed

text \<open>
  Claim C8. An assertion that gave the limit \<open>limit\<close> and the relational
  operator \<open>oper'\<close> (after the reversal for \<open>OAK_EQUAL\<close>) and that compares
  with zero reaches the adjustment to an inclusive bound. The limit is a
  Constant, a BinOpArray or an Array there.
  \<^item> For \<open><\<close> one is subtracted and for \<open>>\<close> one is added. If that leaves the
    32-bit range, which can happen for a Constant or BinOpArray limit, the
    assertion is discarded: the range after it is the range before it.
  \<^item> Otherwise the limit the two tightening tests see and the limit stored are
    the adjusted one: the constant of a Constant or BinOpArray limit is one
    less for \<open><\<close> and one more for \<open>>\<close>, as 32-bit and as unbounded
    integers, and \<open>Array(v)\<close> becomes \<open>BinOpArray(v, -1)\<close> for \<open><\<close> and
    \<open>BinOpArray(v, 1)\<close> for \<open>>\<close>. It is stored in the upper limit for \<open><\<close> and
    in the lower limit for \<open>>\<close>.
  \<^item> For any other operator the limit is not adjusted.
\<close>

theorem strict_relop_adjustment:
  assumes "cur = optGetAssertion C (index + 1)"
    and "AssertionLimit C (ssaVN C (gtLclNum (node C lcl)) (gtSsaNum (node C lcl))) cur
           = Some (limit, oper)"
    and "op2_vn cur = VNZeroForTypeInt C"
    and "oper' = AdjustedOper cur oper"
    and "new = MergeEdgeAssertions_body C chk lcl index pRange"
  shows
   "(oper' = GT_LT \<and> (IsConstant limit \<or> IsBinOpArray limit) \<and> sint (cns limit) - 1 < INT_MIN
        \<longrightarrow> new = pRange)
  \<and> (oper' = GT_GT \<and> (IsConstant limit \<or> IsBinOpArray limit) \<and> INT_MAX < sint (cns limit) + 1
        \<longrightarrow> new = pRange)
  \<and> (oper' = GT_LT \<and> (IsConstant limit \<or> IsBinOpArray limit) \<and> INT_MIN \<le> sint (cns limit) - 1
        \<longrightarrow> sint (cns limit - 1) = sint (cns limit) - 1
          \<and> new = (if DoesNotTighten (CurArrRefVN C chk) pRange (limit\<lparr>cns := cns limit - 1\<rparr>)
                   then pRange else pRange\<lparr>uLimit := limit\<lparr>cns := cns limit - 1\<rparr>\<rparr>))
  \<and> (oper' = GT_GT \<and> (IsConstant limit \<or> IsBinOpArray limit) \<and> sint (cns limit) + 1 \<le> INT_MAX
        \<longrightarrow> sint (cns limit + 1) = sint (cns limit) + 1
          \<and> new = (if DoesNotTighten (CurArrRefVN C chk) pRange (limit\<lparr>cns := cns limit + 1\<rparr>)
                   then pRange else pRange\<lparr>lLimit := limit\<lparr>cns := cns limit + 1\<rparr>\<rparr>))
  \<and> (oper' = GT_LT \<and> IsArray limit
        \<longrightarrow> new = (if DoesNotTighten (CurArrRefVN C chk) pRange (Limit3 keBinOpArray (vn limit) (- 1))
                   then pRange else pRange\<lparr>uLimit := Limit3 keBinOpArray (vn limit) (- 1)\<rparr>))
  \<and> (oper' = GT_GT \<and> IsArray limit
        \<longrightarrow> new = (if DoesNotTighten (CurArrRefVN C chk) pRange (Limit3 keBinOpArray (vn limit) 1)
                   then pRange else pRange\<lparr>lLimit := Limit3 keBinOpArray (vn limit) 1\<rparr>))
  \<and> (oper' \<noteq> GT_LT \<and> oper' \<noteq> GT_GT \<and> \<not> IsUndef limit
        \<longrightarrow> new = (if DoesNotTighten (CurArrRefVN C chk) pRange limit
                   then pRange else StoreLimit oper' limit pRange))"
proof (intro conjI impI)
  note body = MergeEdgeAssertions_body_cases [OF assms(1,2), of chk pRange,
      folded assms(4), folded assms(5)]
  have nu: "IsConstant limit \<or> IsBinOpArray limit \<or> IsArray limit \<longrightarrow> \<not> IsUndef limit"
    by (auto simp: IsUndef_def IsConstant_def IsBinOpArray_def IsArray_def)
  have m1: "sint (- 1 :: int32) = - 1" and p1: "sint (1 :: int32) = 1"
    by simp_all
  {
    assume a: "oper' = GT_LT \<and> (IsConstant limit \<or> IsBinOpArray limit) \<and> sint (cns limit) - 1 < INT_MIN"
    with nu have u: "\<not> IsUndef limit" by blast
    from a have "AddConstant limit (- 1) = (False, limit)"
      by (intro AddConstant_overflow) (auto simp: m1)
    with a u assms(3) show "new = pRange"
      by (simp add: body AdjustLimit_LT)
  next
    assume a: "oper' = GT_GT \<and> (IsConstant limit \<or> IsBinOpArray limit) \<and> INT_MAX < sint (cns limit) + 1"
    with nu have u: "\<not> IsUndef limit" by blast
    from a have "AddConstant limit 1 = (False, limit)"
      by (intro AddConstant_overflow) (auto simp: p1)
    with a u assms(3) show "new = pRange"
      by (simp add: body AdjustLimit_GT)
  next
    assume a: "oper' = GT_LT \<and> (IsConstant limit \<or> IsBinOpArray limit) \<and> INT_MIN \<le> sint (cns limit) - 1"
    with nu have u: "\<not> IsUndef limit" by blast
    from a sint32_bounds(2) [of "cns limit"]
    have b: "INT_MIN \<le> sint (cns limit) + sint (- 1 :: int32)"
        "sint (cns limit) + sint (- 1 :: int32) \<le> INT_MAX"
      by (simp_all add: m1)
    from a have t: "IsConstant limit \<or> IsBinOpArray limit" by simp
    from AddConstant_no_overflow(2) [OF t b]
    show "sint (cns limit - 1) = sint (cns limit) - 1"
      by (simp add: m1)
    from AddConstant_no_overflow(1) [OF t b]
    have "AddConstant limit (- 1) = (True, limit\<lparr>cns := cns limit - 1\<rparr>)"
      by simp
    with a u assms(3)
    show "new = (if DoesNotTighten (CurArrRefVN C chk) pRange (limit\<lparr>cns := cns limit - 1\<rparr>)
                   then pRange else pRange\<lparr>uLimit := limit\<lparr>cns := cns limit - 1\<rparr>\<rparr>)"
      by (simp add: body AdjustLimit_LT StoreLimit_def)
  next
    assume a: "oper' = GT_GT \<and> (IsConstant limit \<or> IsBinOpArray limit) \<and> sint (cns limit) + 1 \<le> INT_MAX"
    with nu have u: "\<not> IsUndef limit" by blast
    from a sint32_bounds(1) [of "cns limit"]
    have b: "INT_MIN \<le> sint (cns limit) + sint (1 :: int32)"
        "sint (cns limit) + sint (1 :: int32) \<le> INT_MAX"
      by (simp_all add: p1)
    from a have t: "IsConstant limit \<or> IsBinOpArray limit" by simp
    from AddConstant_no_overflow(2) [OF t b]
    show "sint (cns limit + 1) = sint (cns limit) + 1"
      by (simp add: p1)
    from AddConstant_no_overflow(1) [OF t b]
    have "AddConstant limit 1 = (True, limit\<lparr>cns := cns limit + 1\<rparr>)" .
    with a u assms(3)
    show "new = (if DoesNotTighten (CurArrRefVN C chk) pRange (limit\<lparr>cns := cns limit + 1\<rparr>)
                   then pRange else pRange\<lparr>lLimit := limit\<lparr>cns := cns limit + 1\<rparr>\<rparr>)"
      by (simp add: body AdjustLimit_GT StoreLimit_def)
  next
    assume a: "oper' = GT_LT \<and> IsArray limit"
    with nu have u: "\<not> IsUndef limit" by blast
    from a u assms(3) AddConstant_array [of limit "- 1"]
    show "new = (if DoesNotTighten (CurArrRefVN C chk) pRange (Limit3 keBinOpArray (vn limit) (- 1))
                   then pRange else pRange\<lparr>uLimit := Limit3 keBinOpArray (vn limit) (- 1)\<rparr>)"
      by (simp add: body AdjustLimit_LT StoreLimit_def)
  next
    assume a: "oper' = GT_GT \<and> IsArray limit"
    with nu have u: "\<not> IsUndef limit" by blast
    from a u assms(3) AddConstant_array [of limit 1]
    show "new = (if DoesNotTighten (CurArrRefVN C chk) pRange (Limit3 keBinOpArray (vn limit) 1)
                   then pRange else pRange\<lparr>lLimit := Limit3 keBinOpArray (vn limit) 1\<rparr>)"
      by (simp add: body AdjustLimit_GT StoreLimit_def)
  next
    assume a: "oper' \<noteq> GT_LT \<and> oper' \<noteq> GT_GT \<and> \<not> IsUndef limit"
    then have "AdjustLimit oper' limit = Some limit"
      by (simp add: AdjustLimit_def)
    with a assms(3)
    show "new = (if DoesNotTighten (CurArrRefVN C chk) pRange limit
                   then pRange else StoreLimit oper' limit pRange)"
      by (simp add: body)
  }
qed

theorem strict_relop_adjustment_witness:
  "MergeEdgeAssertions_body ExC 2 3 4 UnknownRange = UnknownRange
   \<and> MergeEdgeAssertions_body ExC 2 3 6 UnknownRange = UnknownRange
   \<and> MergeEdgeAssertions_body ExC 2 3 7 UnknownRange
       = UnknownRange\<lparr>uLimit := Limit3 keConstant 99 99\<rparr>
   \<and> MergeEdgeAssertions_body ExC 2 3 5 UnknownRange
       = UnknownRange\<lparr>lLimit := Limit3 keConstant 99 1\<rparr>
   \<and> MergeEdgeAssertions_body ExC 2 3 1 UnknownRange
       = UnknownRange\<lparr>uLimit := Limit3 keBinOpArray 21 (- 1)\<rparr>"
proof -
  define cur5 where "cur5 = optGetAssertion ExC (4 + 1)"
  define cur7 where "cur7 = optGetAssertion ExC (6 + 1)"
  define cur8 where "cur8 = optGetAssertion ExC (7 + 1)"
  define cur6 where "cur6 = optGetAssertion ExC (5 + 1)"
  define cur2 where "cur2 = optGetAssertion ExC (1 + 1)"
  have a5: "AssertionLimit ExC (ssaVN ExC (gtLclNum (node ExC 3)) (gtSsaNum (node ExC 3))) cur5
              = Some (Limit3 keConstant 99 0x80000000, GT_LT)"
    unfolding cur5_def by code_simp
  have a7: "AssertionLimit ExC (ssaVN ExC (gtLclNum (node ExC 3)) (gtSsaNum (node ExC 3))) cur7
              = Some (Limit3 keConstant 99 0x7FFFFFFF, GT_GT)"
    unfolding cur7_def by code_simp
  have a8: "AssertionLimit ExC (ssaVN ExC (gtLclNum (node ExC 3)) (gtSsaNum (node ExC 3))) cur8
              = Some (Limit3 keConstant 99 100, GT_LT)"
    unfolding cur8_def by code_simp
  have a6: "AssertionLimit ExC (ssaVN ExC (gtLclNum (node ExC 3)) (gtSsaNum (node ExC 3))) cur6
              = Some (Limit3 keConstant 99 0, GT_GT)"
    unfolding cur6_def by code_simp
  have a2: "AssertionLimit ExC (ssaVN ExC (gtLclNum (node ExC 3)) (gtSsaNum (node ExC 3))) cur2
               = Some (Limit3 keArray 21 0, GT_LT)"
    unfolding cur2_def by code_simp
  have z5: "op2_vn cur5 = VNZeroForTypeInt ExC" unfolding cur5_def by code_simp
  have z7: "op2_vn cur7 = VNZeroForTypeInt ExC" unfolding cur7_def by code_simp
  have z8: "op2_vn cur8 = VNZeroForTypeInt ExC" unfolding cur8_def by code_simp
  have z6: "op2_vn cur6 = VNZeroForTypeInt ExC" unfolding cur6_def by code_simp
  have z2: "op2_vn cur2 = VNZeroForTypeInt ExC" unfolding cur2_def by code_simp
  have o5: "GT_LT = AdjustedOper cur5 GT_LT" unfolding cur5_def by code_simp
  have o7: "GT_GT = AdjustedOper cur7 GT_GT" unfolding cur7_def by code_simp
  have o8: "GT_LT = AdjustedOper cur8 GT_LT" unfolding cur8_def by code_simp
  have o6: "GT_GT = AdjustedOper cur6 GT_GT" unfolding cur6_def by code_simp
  have o2: "GT_LT = AdjustedOper cur2 GT_LT" unfolding cur2_def by code_simp
  have nt: "\<not> DoesNotTighten (CurArrRefVN ExC 2) UnknownRange l" for l
    by (simp add: DoesNotTighten_def UnknownRange_def Range1_def Limit1_def IsConstant_def
          IsArray_def IsBinOpArray_def)
  have c: "IsConstant (Limit3 keConstant 99 k)" "cns (Limit3 keConstant 99 k) = k"
    "(Limit3 keConstant 99 k)\<lparr>cns := k'\<rparr> = Limit3 keConstant 99 k'" for k k'
    by (simp_all add: IsConstant_def Limit3_def)
  have ar: "IsArray (Limit3 keArray 21 0)" "vn (Limit3 keArray 21 0) = 21"
    by (simp_all add: IsArray_def Limit3_def)
  from strict_relop_adjustment [OF cur5_def a5 z5 o5 refl, of 2 UnknownRange] c(1)
  have 1: "MergeEdgeAssertions_body ExC 2 3 4 UnknownRange = UnknownRange"
    by (simp add: c(2) INT_MIN_def)
  from strict_relop_adjustment [OF cur7_def a7 z7 o7 refl, of 2 UnknownRange] c(1)
  have 2: "MergeEdgeAssertions_body ExC 2 3 6 UnknownRange = UnknownRange"
    by (simp add: c(2) INT_MAX_def)
  from strict_relop_adjustment [OF cur8_def a8 z8 o8 refl, of 2 UnknownRange] c(1)
  have 3: "MergeEdgeAssertions_body ExC 2 3 7 UnknownRange
       = UnknownRange\<lparr>uLimit := Limit3 keConstant 99 99\<rparr>"
    by (simp add: c(2,3) nt INT_MIN_def)
  from strict_relop_adjustment [OF cur6_def a6 z6 o6 refl, of 2 UnknownRange] c(1)
  have 4: "MergeEdgeAssertions_body ExC 2 3 5 UnknownRange
       = UnknownRange\<lparr>lLimit := Limit3 keConstant 99 1\<rparr>"
    by (simp add: c(2,3) nt INT_MAX_def)
  from strict_relop_adjustment [OF cur2_def a2 z2 o2 refl, of 2 UnknownRange] ar
  have 5: "MergeEdgeAssertions_body ExC 2 3 1 UnknownRange
       = UnknownRange\<lparr>uLimit := Limit3 keBinOpArray 21 (- 1)\<rparr>"
    by (simp add: nt)
  from 1 2 3 4 5 show ?thesis by simp
qed
subsection \<open>BetweenBounds\<close>

text \<open>
  Claim C5. \<open>BetweenBounds\<close> accepts an upper limit of the form BinOpArray only
  when its constant offset is strictly negative: for every range whose upper
  limit is a BinOpArray with offset \<open>ucns \<ge> 0\<close> (\<open>ucns = 0\<close> included),
  \<open>BetweenBounds\<close> returns false, whatever the lower limit, the array and the
  upper tree are.
\<close>

theorem BetweenBounds_BinOpArray_nonneg:
  assumes "IsBinOpArray (uLimit r)" and "0 \<le>s cns (uLimit r)"
  shows "\<not> BetweenBounds C r lower upper"
  using assms
  by (simp add: BetweenBounds_def IsBinOpArray_def IsConstant_def Let_def
           split: option.splits prod.splits)

theorem BetweenBounds_BinOpArray_nonneg_witness:
  "IsBinOpArray (uLimit \<lparr>lLimit = Limit2 keConstant 0, uLimit = Limit3 keBinOpArray 21 0\<rparr>)
   \<and> \<not> BetweenBounds ExC \<lparr>lLimit = Limit2 keConstant 0, uLimit = Limit3 keBinOpArray 21 0\<rparr> 0 4"
proof -
  have h: "IsBinOpArray (uLimit \<lparr>lLimit = Limit2 keConstant 0, uLimit = Limit3 keBinOpArray 21 0\<rparr>)"
    "0 \<le>s cns (uLimit \<lparr>lLimit = Limit2 keConstant 0, uLimit = Limit3 keBinOpArray 21 0\<rparr>)"
    by (simp_all add: IsBinOpArray_def Limit3_def)
  from h(1) BetweenBounds_BinOpArray_nonneg [OF h, of ExC 0 4] show ?thesis by simp
qed

subsection \<open>The overflow engine\<close>

text \<open>
  What \<open>DoesBinOpOverflow\<close> requires before it reports no overflow, in terms
  of the maxima \<open>GetLimitMax\<close> computes: each operand that is not on the search
  path does not itself overflow, both operands have a cached range whose upper
  limit has a maximum, and the sum of the two maxima stays within the 32-bit
  signed range.
\<close>

lemma DoesBinOpOverflow_not_overflowing:
  assumes "DoesBinOpOverflow doesOverflow C blk op1 op2 s = Inr (False, s')"
  shows "\<exists>s1 s2 r1 r2 m1 m2.
      (if path_Lookup (path s) op1 then s1 = s else doesOverflow blk op1 s = Inr (False, s1))
    \<and> (if path_Lookup (path s1) op2 then s2 = s1 else doesOverflow blk op2 s1 = Inr (False, s2))
    \<and> m_pRangeMap s' op1 = Some r1 \<and> m_pRangeMap s' op2 = Some r2
    \<and> GetLimitMax C (uLimit r1) = Some m1 \<and> GetLimitMax C (uLimit r2) = Some m2
    \<and> INT_MIN \<le> sint m1 + sint m2 \<and> sint m1 + sint m2 \<le> INT_MAX"
proof -
  obtain s1 where s1: "if path_Lookup (path s) op1 then s1 = s else doesOverflow blk op1 s = Inr (False, s1)"
    and k1: "(if \<not> path_Lookup (path s) op1 then doesOverflow blk op1 s else Inr (False, s)) = Inr (False, s1)"
    using assms by (auto simp: DoesBinOpOverflow_def split: sum.splits if_splits)
  obtain s2 where s2: "if path_Lookup (path s1) op2 then s2 = s1 else doesOverflow blk op2 s1 = Inr (False, s2)"
    and k2: "(if \<not> path_Lookup (path s1) op2 then doesOverflow blk op2 s1 else Inr (False, s1)) = Inr (False, s2)"
    using assms k1 by (auto simp: DoesBinOpOverflow_def split: sum.splits if_splits)
  define s4 where "s4 = MergeAssertionIfDependent C blk op2 (MergeAssertionIfDependent C blk op1 s2)"
  from assms k1 k2 have c: "m_pRangeMap s2 op1 \<noteq> None" "m_pRangeMap s2 op2 \<noteq> None"
    by (auto simp: DoesBinOpOverflow_def split: if_splits)
  then obtain r1 r2 where r: "m_pRangeMap s4 op1 = Some r1" "m_pRangeMap s4 op2 = Some r2"
    unfolding s4_def using MergeAssertionIfDependent_Some by (metis not_Some_eq)
  from assms k1 k2 c r have res: "s' = s4" "\<not> AddOverflows C (uLimit r1) (uLimit r2)"
    by (auto simp: DoesBinOpOverflow_def s4_def Let_def)
  from AddOverflows_False [OF res(2)] obtain m1 m2 where
    m: "GetLimitMax C (uLimit r1) = Some m1" "GetLimitMax C (uLimit r2) = Some m2"
       "\<not> IntAddOverflows m1 m2" by blast
  from m(3) have "INT_MIN \<le> sint m1 + sint m2" "sint m1 + sint m2 \<le> INT_MAX"
    by (auto simp: IntAddOverflows_def)
  with s1 s2 r res(1) m(1,2) show ?thesis by blast
qed

text \<open>
  The maximum \<open>GetLimitMax\<close> gives to an Array or BinOpArray limit never is the
  allocated length. The value number of such a limit is the array reference,
  and \<open>GetArrLength\<close> takes the value number of a length: it asks
  \<open>GetArrForLenVn\<close> for the array of its argument and then \<open>GetNewArrSize\<close>
  for the size of that array. On an array reference the first query answers
  \<open>NoVN\<close>, the size of which is not known, and the maximum falls back to
  \<open>ARRLEN_MAX\<close>. \<open>BetweenBounds\<close> and the constant-index test of
  \<open>OptimizeRangeCheck\<close> pass a length to the same queries.
\<close>

lemma GetLimitMax_array:
  assumes "type l = keArray \<or> type l = keBinOpArray"
    and "GetArrForLenVn C (vn l) = NoVN C" and "GetNewArrSize C (NoVN C) = 0"
    and "GetLimitMax C l = Some m"
  shows "sint m = INT_MAX + (if type l = keBinOpArray then sint (cns l) else 0)"
  using assms
  by (auto simp: GetLimitMax_def GetArrLength_def Let_def sint_ARRLEN_MAX sint_add_no_overflow
           split: if_splits)

text \<open>
  Claim C6. The claim takes as the maximum of an Array or BinOpArray limit the
  allocated length of the array when it is statically known. The code does not:
  in \<open>ExC_alloc\<close> the array 21 of the bounds check 2 is allocated with five
  elements, the specification's maximum of the limit \<open>Array(21)\<close> is 5, and
  \<open>GetLimitMax\<close> gives \<open>ARRLEN_MAX\<close>. The verdicts differ both ways. For
  \<open>i + 1\<close> with \<open>i\<close> in \<open>[0, a.Length]\<close> the sum of the specification's maxima
  is 6 and the overflow engine reports an overflow. For the upper limits
  \<open>BinOpArray(21, -10)\<close> and \<open>Constant(INT_MIN)\<close> the specification's maxima
  are \<open>-5\<close> and \<open>INT_MIN\<close>, whose sum leaves the 32-bit range, and
  \<open>AddOverflows\<close> reports no overflow.
\<close>

theorem limit_max_ignores_allocated_length:
  "CurArrRefVN ExC_alloc 2 = 21 \<and> GetNewArrSize ExC_alloc 21 = 5
   \<and> SpecLimitMax ExC_alloc (Limit3 keArray 21 0) 5
   \<and> GetLimitMax ExC_alloc (Limit3 keArray 21 0) = Some ARRLEN_MAX
   \<and> SpecLimitMax ExC_alloc (Limit2 keConstant 1) 1
   \<and> 5 + 1 \<le> INT_MAX
   \<and> AddOverflows ExC_alloc (Limit3 keArray 21 0) (Limit2 keConstant 1)
   \<and> map_sum id fst
        (DoesBinOpOverflow (DoesOverflow 20 ExC_alloc) ExC_alloc 2 16 17
           (RangeCheck_init\<lparr>m_pRangeMap := ex_ranges_alloc\<rparr>)) = Inr True
   \<and> SpecLimitMax ExC_alloc (Limit3 keBinOpArray 21 (- 10)) (- 5)
   \<and> SpecLimitMax ExC_alloc (Limit2 keConstant 0x80000000) INT_MIN
   \<and> - 5 + INT_MIN < INT_MIN
   \<and> GetLimitMax ExC_alloc (Limit3 keBinOpArray 21 (- 10)) = Some (ARRLEN_MAX - 10)
   \<and> \<not> AddOverflows ExC_alloc (Limit3 keBinOpArray 21 (- 10)) (Limit2 keConstant 0x80000000)"
  by code_simp
subsection \<open>Release of the search path\<close>

text \<open>
  Claim C3, as stated, fails for the range engine. In the loop of \<open>ExC\<close> the
  call of \<open>ComputeRange\<close> on the phi argument 9 starts with nodes 7 and 3 on
  the search path and adds node 9. It reaches the phi 7 again through the use 16
  of \<open>i\<close>; that inner call puts node 7 on the path a second time and removes it
  at its end. When the call on node 9 returns, node 9 is off the path, but so is
  node 7: the membership is not what it was at entry.
\<close>

theorem search_path_release_counterexample:
  "path ex_state_at_phi_arg = [7, 3]
   \<and> \<not> path_Lookup (path ex_state_at_phi_arg) 9
   \<and> final_path (ComputeRange (GetRange 19 ExC) ExC 1 9 False ex_state_at_phi_arg) = Some [3]"
  by code_simp

text \<open>
  Claim C3, amended. Every call of the range engine and of the overflow engine
  removes its own expression from the search path before it returns and leaves
  no expression on the path that was not there at entry: the membership at
  return is contained in the membership at entry without the call's
  expression. For the monotonicity prover, which does not enter an expression
  that is already on the path, the membership at return is exactly the
  membership at entry.
\<close>

theorem search_path_release:
  "(GetRange n C blk expr monotonic s = Inr (r, s') \<longrightarrow> set (path s') \<subseteq> set (path s))
 \<and> (ComputeRange (GetRange n C) C blk expr monotonic s = Inr (r, s')
      \<longrightarrow> set (path s') \<subseteq> set (path s) - {expr})
 \<and> (DoesOverflow n C blk expr s = Inr (b, s') \<longrightarrow> set (path s') \<subseteq> set (path s))
 \<and> (ComputeDoesOverflow (DoesOverflow n C) C blk expr s = Inr (b, s')
      \<longrightarrow> set (path s') \<subseteq> set (path s) - {expr})
 \<and> (IsMonotonicallyIncreasing n C expr p = Inr (b, p') \<longrightarrow> set p' = set p)"
proof -
  have g: "\<forall>blk e m s r s'. GetRange n C blk e m s = Inr (r, s') \<longrightarrow> set (path s') \<subseteq> set (path s)"
    using GetRange_path by blast
  have d: "\<forall>blk e s b s'. DoesOverflow n C blk e s = Inr (b, s') \<longrightarrow> set (path s') \<subseteq> set (path s)"
    using DoesOverflow_path by blast
  show ?thesis
  proof (intro conjI impI)
    assume "GetRange n C blk expr monotonic s = Inr (r, s')"
    then show "set (path s') \<subseteq> set (path s)" by (rule GetRange_path)
  next
    assume "ComputeRange (GetRange n C) C blk expr monotonic s = Inr (r, s')"
    then show "set (path s') \<subseteq> set (path s) - {expr}" by (rule ComputeRange_path [OF g])
  next
    assume "DoesOverflow n C blk expr s = Inr (b, s')"
    then show "set (path s') \<subseteq> set (path s)" by (rule DoesOverflow_path)
  next
    assume "ComputeDoesOverflow (DoesOverflow n C) C blk expr s = Inr (b, s')"
    then show "set (path s') \<subseteq> set (path s) - {expr}" by (rule ComputeDoesOverflow_path [OF d])
  next
    assume "IsMonotonicallyIncreasing n C expr p = Inr (b, p')"
    then show "set p' = set p" by (rule IsMonotonicallyIncreasing_path)
  qed
qed

theorem search_path_release_witness:
  "\<exists>r s' b s'' p'.
      ComputeRange (GetRange 19 ExC) ExC 1 9 False ex_state_at_phi_arg = Inr (r, s')
    \<and> set (path s') \<subseteq> set (path ex_state_at_phi_arg) - {9}
    \<and> ComputeDoesOverflow (DoesOverflow 19 ExC) ExC 1 9 ex_state_at_phi_arg = Inr (b, s'')
    \<and> set (path s'') \<subseteq> set (path ex_state_at_phi_arg) - {9}
    \<and> IsMonotonicallyIncreasing 19 ExC 9 [7, 3] = Inr (True, p') \<and> set p' = set [7, 3]"
proof -
  have "final_path (ComputeRange (GetRange 19 ExC) ExC 1 9 False ex_state_at_phi_arg) \<noteq> None"
    by code_simp
  then obtain r s' where 1: "ComputeRange (GetRange 19 ExC) ExC 1 9 False ex_state_at_phi_arg = Inr (r, s')"
    by (auto simp: final_path_def split: sum.splits)
  have "final_path (ComputeDoesOverflow (DoesOverflow 19 ExC) ExC 1 9 ex_state_at_phi_arg) \<noteq> None"
    by code_simp
  then obtain b s'' where 2: "ComputeDoesOverflow (DoesOverflow 19 ExC) ExC 1 9 ex_state_at_phi_arg = Inr (b, s'')"
    by (auto simp: final_path_def split: sum.splits)
  have "map_sum id fst (IsMonotonicallyIncreasing 19 ExC 9 [7, 3]) = Inr True"
    by code_simp
  then obtain p' where 3: "IsMonotonicallyIncreasing 19 ExC 9 [7, 3] = Inr (True, p')"
    by (cases "IsMonotonicallyIncreasing 19 ExC 9 [7, 3]") auto
  from 1 search_path_release [where n = 19 and C = ExC and blk = 1 and expr = 9
      and monotonic = False and s = ex_state_at_phi_arg and r = r and s' = s']
  have a: "set (path s') \<subseteq> set (path ex_state_at_phi_arg) - {9}" by simp
  from 2 search_path_release [where n = 19 and C = ExC and blk = 1 and expr = 9
      and s = ex_state_at_phi_arg and b = b and s' = s'']
  have b: "set (path s'') \<subseteq> set (path ex_state_at_phi_arg) - {9}" by simp
  from 3 search_path_release [where n = 19 and C = ExC and expr = 9 and b = True
      and p = "[7, 3]" and p' = p']
  have c: "set p' = set [7, 3]" by simp
  from 1 2 3 a b c show ?thesis by blast
qed

subsection \<open>The monotonicity prover\<close>

text \<open>
  Claim C9. \<open>IsBinOpMonotonicallyIncreasing\<close> first swaps the operands when the
  second one is a local variable, so that \<open>a\<close> below is the operand it requires
  to be a local and \<open>b\<close> the other one. If \<open>a\<close> is not a local the verdict is
  "not monotonic". If \<open>b\<close> is a local too, the verdict is "monotonic" exactly
  when both are monotonic. If \<open>b\<close> is a constant, the verdict is "monotonic"
  exactly when the operation is an addition, the constant is not negative and
  \<open>a\<close> is monotonic; a local plus a negative constant is never monotonic. Any
  other \<open>b\<close> gives "not monotonic".
\<close>

theorem binop_monotonic_rule:
  assumes "(a, b) = (if gtOper (node C op2) = GT_LCL_VAR then (op2, op1) else (op1, op2))"
    and "R = IsBinOpMonotonicallyIncreasing isMono C op1 op2 oper p"
  shows "(gtOper (node C a) \<noteq> GT_LCL_VAR \<longrightarrow> R = Inr (False, p))
    \<and> (gtOper (node C a) = GT_LCL_VAR \<and> gtOper (node C b) = GT_LCL_VAR \<longrightarrow>
         (R = Inr (True, p') \<longleftrightarrow> (\<exists>p1. isMono a p = Inr (True, p1) \<and> isMono b p1 = Inr (True, p'))))
    \<and> (gtOper (node C a) = GT_LCL_VAR \<and> gtOper (node C b) = GT_CNS_INT \<longrightarrow>
         (R = Inr (True, p') \<longleftrightarrow>
            oper = GT_ADD \<and> 0 \<le> gtIconVal (node C b) \<and> isMono a p = Inr (True, p')))
    \<and> (gtOper (node C a) = GT_LCL_VAR \<and> gtOper (node C b) = GT_CNS_INT
          \<and> gtIconVal (node C b) < 0 \<longrightarrow> R = Inr (False, p))
    \<and> (gtOper (node C a) = GT_LCL_VAR \<and> gtOper (node C b) \<noteq> GT_LCL_VAR
          \<and> gtOper (node C b) \<noteq> GT_CNS_INT \<longrightarrow> R = Inr (False, p))"
proof -
  from assms(1) have ab: "(if gtOper (node C op2) = GT_LCL_VAR then (op2, op1) else (op1, op2)) = (a, b)"
    by simp
  show ?thesis
    unfolding assms(2) IsBinOpMonotonicallyIncreasing_def ab
    by (auto split: sum.splits)
qed

theorem binop_monotonic_rule_witness:
  "IsBinOpMonotonicallyIncreasing (IsMonotonicallyIncreasing 20 ExC) ExC 16 17 GT_ADD [] = Inr (True, [])
   \<and> IsMonotonicallyIncreasing 20 ExC 16 [] = Inr (True, [])
   \<and> IsBinOpMonotonicallyIncreasing (IsMonotonicallyIncreasing 20 ExC) ExC 16 18 GT_ADD [] = Inr (False, [])
   \<and> IsBinOpMonotonicallyIncreasing (IsMonotonicallyIncreasing 20 ExC) ExC 3 16 GT_ADD [] = Inr (True, [])"
proof -
  have m: "IsMonotonicallyIncreasing 20 ExC 16 [] = Inr (True, [])"
    "IsMonotonicallyIncreasing 20 ExC 3 [] = Inr (True, [])"
    by code_simp+
  have n: "gtOper (node ExC 16) = GT_LCL_VAR" "gtOper (node ExC 17) = GT_CNS_INT"
    "gtOper (node ExC 18) = GT_CNS_INT" "gtIconVal (node ExC 17) = 1" "gtIconVal (node ExC 18) = - 1"
    "gtOper (node ExC 3) = GT_LCL_VAR"
    by (simp_all add: ex_defs)
  from binop_monotonic_rule [of 16 17 ExC 17 16 _ "IsMonotonicallyIncreasing 20 ExC" GT_ADD "[]" "[]"] m n
  have 1: "IsBinOpMonotonicallyIncreasing (IsMonotonicallyIncreasing 20 ExC) ExC 16 17 GT_ADD [] = Inr (True, [])"
    by simp
  from binop_monotonic_rule [of 16 18 ExC 18 16 _ "IsMonotonicallyIncreasing 20 ExC" GT_ADD "[]" "[]"] n
  have 2: "IsBinOpMonotonicallyIncreasing (IsMonotonicallyIncreasing 20 ExC) ExC 16 18 GT_ADD [] = Inr (False, [])"
    by simp
  from binop_monotonic_rule [of 16 3 ExC 16 3 _ "IsMonotonicallyIncreasing 20 ExC" GT_ADD "[]" "[]"] m n
  have 3: "IsBinOpMonotonicallyIncreasing (IsMonotonicallyIncreasing 20 ExC) ExC 3 16 GT_ADD [] = Inr (True, [])"
    by auto
  from 1 2 3 m show ?thesis by simp
qed

subsection \<open>The driver\<close>

text \<open>
  Claim C10. The pass analyses, and can remove, only bounds checks that hang
  directly under a comma node: a node visited by the driver that is not a comma,
  or whose first operand is not a bounds check, is skipped with the state of the
  pass unchanged, and every node the pass hands to \<open>optRemoveRangeCheck\<close> is
  a comma whose first operand is a bounds check.
\<close>

theorem only_comma_bounds_checks:
  "(gtOper (node C t) \<noteq> GT_COMMA \<longrightarrow> OptimizeRangeCheck n C blk st t s = Inr (False, s))
   \<and> (gtOper (node C (gtOp1 (node C t))) \<noteq> GT_ARR_BOUNDS_CHECK
        \<longrightarrow> OptimizeRangeCheck n C blk st t s = Inr (False, s))
   \<and> (OptimizeRangeChecks n C s = Inr (removed, s') \<longrightarrow>
        (\<forall>x \<in> set removed. gtOper (node C (fst x)) = GT_COMMA
            \<and> gtOper (node C (gtOp1 (node C (fst x)))) = GT_ARR_BOUNDS_CHECK))"
proof (intro conjI impI ballI)
  fix x assume a: "OptimizeRangeChecks n C s = Inr (removed, s')" and x: "x \<in> set removed"
  from a have "removed = [] \<or> OptimizeRangeChecks_loop n C (MethodTrees C) s = Inr (removed, s')"
    by (auto simp: OptimizeRangeChecks_def split: if_splits)
  with x OptimizeRangeChecks_loop_removed_comma [of n C "MethodTrees C" s removed s' "fst x" "snd x"]
  show "gtOper (node C (fst x)) = GT_COMMA"
    "gtOper (node C (gtOp1 (node C (fst x)))) = GT_ARR_BOUNDS_CHECK"
    by auto
qed (simp_all add: OptimizeRangeCheck_def)

theorem only_comma_bounds_checks_witness:
  "OptimizeRangeCheck 20 ExC 2 0 2 RangeCheck_init = Inr (False, RangeCheck_init)
   \<and> OptimizeRangeCheck 20 ExC 2 0 3 RangeCheck_init = Inr (False, RangeCheck_init)
   \<and> map_sum id fst (OptimizeRangeChecks 20 ExC RangeCheck_init) = Inr [(1, 0), (21, 1)]
   \<and> gtOper (node ExC 1) = GT_COMMA \<and> gtOper (node ExC (gtOp1 (node ExC 1))) = GT_ARR_BOUNDS_CHECK
   \<and> gtOper (node ExC 21) = GT_COMMA \<and> gtOper (node ExC (gtOp1 (node ExC 21))) = GT_ARR_BOUNDS_CHECK"
proof -
  have n: "gtOper (node ExC 2) \<noteq> GT_COMMA"
    "gtOper (node ExC (gtOp1 (node ExC 3))) \<noteq> GT_ARR_BOUNDS_CHECK"
    by (simp_all add: ex_defs)
  have run: "map_sum id fst (OptimizeRangeChecks 20 ExC RangeCheck_init) = Inr [(1, 0), (21, 1)]"
    by code_simp
  then obtain s' where s': "OptimizeRangeChecks 20 ExC RangeCheck_init = Inr ([(1, 0), (21, 1)], s')"
    by (cases "OptimizeRangeChecks 20 ExC RangeCheck_init") auto
  from only_comma_bounds_checks [where C = ExC and t = 2 and n = 20 and blk = 2 and st = 0
      and s = RangeCheck_init and removed = "[(1, 0), (21, 1)]" and s' = s'] n(1) s'
  have 1: "OptimizeRangeCheck 20 ExC 2 0 2 RangeCheck_init = Inr (False, RangeCheck_init)"
    and 3: "gtOper (node ExC 1) = GT_COMMA \<and> gtOper (node ExC (gtOp1 (node ExC 1))) = GT_ARR_BOUNDS_CHECK
      \<and> gtOper (node ExC 21) = GT_COMMA \<and> gtOper (node ExC (gtOp1 (node ExC 21))) = GT_ARR_BOUNDS_CHECK"
    by simp_all
  from only_comma_bounds_checks [where C = ExC and t = 3 and n = 20 and blk = 2 and st = 0
      and s = RangeCheck_init] n(2)
  have 2: "OptimizeRangeCheck 20 ExC 2 0 3 RangeCheck_init = Inr (False, RangeCheck_init)"
    by simp
  from 1 2 3 run show ?thesis by simp
qed

text \<open>
  Claim C7. For a bounds check under a comma whose index and array length both
  have 32-bit constant value numbers \<open>c1\<close> and \<open>c2\<close> with \<open>0 \<le> c1 < c2\<close>, the
  eliminator removes the check on the constant path: the result is the removal
  for any fuel, zero included, and the state of the pass is the state at entry
  with only \<open>m_pCurBndsChk\<close> set, so neither the caches, nor the budget, nor
  the search path were touched.
\<close>

theorem constant_fast_path:
  assumes "gtOper (node C treeParent) = GT_COMMA"
    and "bndsChk = gtOp1 (node C treeParent)"
    and "gtOper (node C bndsChk) = GT_ARR_BOUNDS_CHECK"
    and "idxVn = gtVN (node C (gtIndex (node C bndsChk)))"
    and "arrLenVn = gtVN (node C (gtArrLen (node C bndsChk)))"
    and "IsVNConstant C idxVn" and "TypeOfVN C idxVn = TYP_INT" and "ConstantValueInt C idxVn = c1"
    and "IsVNConstant C arrLenVn" and "TypeOfVN C arrLenVn = TYP_INT"
    and "ConstantValueInt C arrLenVn = c2"
    and "0 \<le>s c1" and "c1 <s c2"
  shows "OptimizeRangeCheck n C blk st treeParent s = Inr (True, s\<lparr>m_pCurBndsChk := bndsChk\<rparr>)"
proof -
  from assms(12,13) have pos: "0 <s c2" and lt: "sint c1 < sint c2" and nn: "0 \<le> sint c1"
    by (auto simp: word_sless_alt word_sle_eq)
  have "ConstantIndexCheck C bndsChk = Some True"
    using assms(4-11) pos lt nn
    by (simp add: ConstantIndexCheck_def optIsTreeKnownIntValue_def Let_def to_int32_sint)
  with assms(1-3) show ?thesis
    by (simp add: OptimizeRangeCheck_def Let_def)
qed

theorem constant_fast_path_witness:
  "OptimizeRangeCheck 0 ExC 4 6 41 RangeCheck_init = Inr (True, RangeCheck_init\<lparr>m_pCurBndsChk := 42\<rparr>)"
  by (rule constant_fast_path [where ?c1.0 = 2 and ?c2.0 = 5 and idxVn = 40 and arrLenVn = 41])
     (simp_all add: ex_defs word_sle_eq word_sless_alt)

subsection \<open>Budget and 64-bit refusal\<close>


lemma ComputeRange_over_budget:
  assumes "m_nVisitBudget s \<le> 1" and "path s = []" and "m_pRangeMap s expr = None"
  shows "\<exists>s'. ComputeRange getRange C blk expr m s = Inr (UnknownRange, s')"
  using assms
  by (simp add: ComputeRange_def ComputeRange_dispatch_def Let_def path_Lookup_def IsOverBudget_def)

lemma ComputeRange_exhausted:
  assumes "IsOverBudget s"
  shows "ComputeRange getRange C blk expr m s = Inr (r, s') \<longrightarrow> r = UnknownRange \<and> IsOverBudget s'"
    and "path_Lookup (path s) expr \<or> m_pRangeMap s expr = None
           \<longrightarrow> (\<exists>s'. ComputeRange getRange C blk expr m s = Inr (UnknownRange, s'))"
  using assms
  by (auto simp: ComputeRange_def ComputeRange_dispatch_def Let_def IsOverBudget_def
           split: if_splits)

lemma AnalyzeRangeCheck_Unknown:
  assumes "\<exists>s'. GetRange n C blk (gtIndex (node C bndsChk)) False
             (s\<lparr>m_pRangeMap := Map.empty, m_pOverflowMap := Map.empty, path := []\<rparr>)
           = Inr (UnknownRange, s')"
  shows "\<exists>s'. AnalyzeRangeCheck n C blk bndsChk s = Inr (False, s')"
  using assms
  by (auto simp: AnalyzeRangeCheck_def Let_def IsUnknown_def UnknownRange_def Range1_def Limit1_def)

lemma OptimizeRangeCheck_keep:
  assumes "ConstantIndexCheck C (gtOp1 (node C t)) \<noteq> Some True"
    and "\<exists>s'. AnalyzeRangeCheck n C blk (gtOp1 (node C t)) (s\<lparr>m_pCurBndsChk := gtOp1 (node C t)\<rparr>)
           = Inr (False, s')"
  shows "\<exists>s'. OptimizeRangeCheck n C blk st t s = Inr (False, s')"
  using assms
  by (auto simp: OptimizeRangeCheck_def Let_def split: option.splits)

text \<open>
  Claim C2, as stated, fails for the check in progress. With a budget of two
  visits left, the analysis of the check 22 of \<open>ExC\<close> (comma 21) visits the
  index and then the phi that defines it, where the budget runs out and the
  range of the phi becomes Unknown. The assertions on the edge into the block
  then overwrite both limits of the range of the index, the overflow engine
  finds two constant phi arguments, and the check is removed with the budget
  at zero.
\<close>

theorem over_budget_counterexample:
  "\<not> IsOverBudget (RangeCheck_init\<lparr>m_nVisitBudget := 2\<rparr>)
   \<and> verdict (OptimizeRangeCheck 20 ExC 3 1 21 (RangeCheck_init\<lparr>m_nVisitBudget := 2\<rparr>)) = Some (True, 0)"
  by code_simp

text \<open>
  Claim C2, amended. Once the visit budget is exhausted the driver returns at
  the next node it reaches: no later check is analysed or removed and the state
  of the pass stays as it is; in particular, after a check that leaves the
  budget exhausted the driver's result is what that check alone gave. Every
  call of \<open>ComputeRange\<close> entered with the budget exhausted gives the range
  Unknown and leaves the budget exhausted, and it does return when its
  expression is on the search path or not yet cached. A check is kept when
  the budget runs out on its index expression itself, that is when at most
  one visit is left on entry and the check is not removed on the constant
  path.
\<close>

theorem over_budget:
  "(IsOverBudget s \<longrightarrow> OptimizeRangeChecks_loop n C trees s = Inr ([], s))
 \<and> (\<not> IsOverBudget s \<and> OptimizeRangeCheck n C blk st t s = Inr (b, s1) \<and> IsOverBudget s1
      \<longrightarrow> OptimizeRangeChecks_loop n C ((blk, st, t) # rest) s
            = Inr (if b then [(t, st)] else [], s1))
 \<and> (m_nVisitBudget s \<le> 1 \<and> ConstantIndexCheck C (gtOp1 (node C t)) \<noteq> Some True
      \<longrightarrow> (\<exists>s2. OptimizeRangeCheck (Suc n) C blk st t s = Inr (False, s2)))
 \<and> (IsOverBudget s \<and> ComputeRange getRange C blk expr monotonic s = Inr (r, s3)
      \<longrightarrow> r = UnknownRange \<and> IsOverBudget s3)
 \<and> (IsOverBudget s \<and> (path_Lookup (path s) expr \<or> m_pRangeMap s expr = None)
      \<longrightarrow> (\<exists>s3. ComputeRange getRange C blk expr monotonic s = Inr (UnknownRange, s3)))"
proof (intro conjI impI)
  assume "IsOverBudget s"
  then show "OptimizeRangeChecks_loop n C trees s = Inr ([], s)"
    by (cases trees) auto
next
  assume a: "IsOverBudget s \<and> ComputeRange getRange C blk expr monotonic s = Inr (r, s3)"
  with ComputeRange_exhausted(1) [of s getRange C blk expr monotonic r s3]
  show "r = UnknownRange" and "IsOverBudget s3"
    by blast+
next
  assume a: "IsOverBudget s \<and> (path_Lookup (path s) expr \<or> m_pRangeMap s expr = None)"
  with ComputeRange_exhausted(2) [of s expr getRange C blk monotonic]
  show "\<exists>s3. ComputeRange getRange C blk expr monotonic s = Inr (UnknownRange, s3)"
    by simp
next
  assume a: "\<not> IsOverBudget s \<and> OptimizeRangeCheck n C blk st t s = Inr (b, s1) \<and> IsOverBudget s1"
  then have "OptimizeRangeChecks_loop n C rest s1 = Inr ([], s1)"
    by (cases rest) auto
  with a show "OptimizeRangeChecks_loop n C ((blk, st, t) # rest) s
            = Inr (if b then [(t, st)] else [], s1)"
    by simp
next
  assume a: "m_nVisitBudget s \<le> 1 \<and> ConstantIndexCheck C (gtOp1 (node C t)) \<noteq> Some True"
  let ?s0 = "s\<lparr>m_pCurBndsChk := gtOp1 (node C t)\<rparr>"
  let ?s1 = "?s0\<lparr>m_pRangeMap := Map.empty, m_pOverflowMap := Map.empty, path := []\<rparr>"
  from a have "\<exists>s'. ComputeRange (GetRange n C) C blk (gtIndex (node C (gtOp1 (node C t)))) False ?s1
                 = Inr (UnknownRange, s')"
    by (intro ComputeRange_over_budget) auto
  then have "\<exists>s'. GetRange (Suc n) C blk (gtIndex (node C (gtOp1 (node C t)))) False ?s1
                 = Inr (UnknownRange, s')"
    by simp
  from OptimizeRangeCheck_keep [OF _ AnalyzeRangeCheck_Unknown [OF this]] a
  show "\<exists>s2. OptimizeRangeCheck (Suc n) C blk st t s = Inr (False, s2)"
    by blast
qed

theorem over_budget_witness:
  "OptimizeRangeChecks_loop 20 ExC (MethodTrees ExC) (RangeCheck_init\<lparr>m_nVisitBudget := 0\<rparr>)
     = Inr ([], RangeCheck_init\<lparr>m_nVisitBudget := 0\<rparr>)
   \<and> map_sum id fst (OptimizeRangeChecks_loop 20 ExC [(3, 1, 21), (2, 0, 1)]
                        (RangeCheck_init\<lparr>m_nVisitBudget := 2\<rparr>)) = Inr [(21, 1)]
   \<and> (\<exists>s2. OptimizeRangeCheck (Suc 0) ExC 3 1 21 (RangeCheck_init\<lparr>m_nVisitBudget := 1\<rparr>)
              = Inr (False, s2))
   \<and> (\<exists>s3. ComputeRange (GetRange 20 ExC) ExC 3 27 False (RangeCheck_init\<lparr>m_nVisitBudget := 0\<rparr>)
              = Inr (UnknownRange, s3) \<and> IsOverBudget s3)"
proof -
  have o: "IsOverBudget (RangeCheck_init\<lparr>m_nVisitBudget := 0\<rparr>)"
    "\<not> IsOverBudget (RangeCheck_init\<lparr>m_nVisitBudget := 2\<rparr>)"
    "m_nVisitBudget (RangeCheck_init\<lparr>m_nVisitBudget := 1\<rparr>) \<le> 1"
    by (simp_all add: IsOverBudget_def)
  from o(1) over_budget [where s = "RangeCheck_init\<lparr>m_nVisitBudget := 0\<rparr>" and n = 20
      and C = ExC and trees = "MethodTrees ExC"]
  have 1: "OptimizeRangeChecks_loop 20 ExC (MethodTrees ExC) (RangeCheck_init\<lparr>m_nVisitBudget := 0\<rparr>)
     = Inr ([], RangeCheck_init\<lparr>m_nVisitBudget := 0\<rparr>)"
    by simp
  have "verdict (OptimizeRangeCheck 20 ExC 3 1 21 (RangeCheck_init\<lparr>m_nVisitBudget := 2\<rparr>)) = Some (True, 0)"
    by code_simp
  then obtain s1 where s1: "OptimizeRangeCheck 20 ExC 3 1 21 (RangeCheck_init\<lparr>m_nVisitBudget := 2\<rparr>) = Inr (True, s1)"
    and ob: "IsOverBudget s1"
    by (auto simp: verdict_def IsOverBudget_def split: sum.splits)
  from o(2) s1 ob over_budget [where s = "RangeCheck_init\<lparr>m_nVisitBudget := 2\<rparr>" and n = 20
      and C = ExC and blk = 3 and st = 1 and t = 21 and b = True and ?s1.0 = s1 and rest = "[(2, 0, 1)]"]
  have 2: "map_sum id fst (OptimizeRangeChecks_loop 20 ExC [(3, 1, 21), (2, 0, 1)]
                        (RangeCheck_init\<lparr>m_nVisitBudget := 2\<rparr>)) = Inr [(21, 1)]"
    by simp
  have c: "ConstantIndexCheck ExC (gtOp1 (node ExC 21)) \<noteq> Some True"
    by code_simp
  from o(3) c over_budget [where s = "RangeCheck_init\<lparr>m_nVisitBudget := 1\<rparr>" and n = 0
      and C = ExC and blk = 3 and st = 1 and t = 21]
  have 3: "\<exists>s2. OptimizeRangeCheck (Suc 0) ExC 3 1 21 (RangeCheck_init\<lparr>m_nVisitBudget := 1\<rparr>)
              = Inr (False, s2)"
    by simp
  have e: "m_pRangeMap (RangeCheck_init\<lparr>m_nVisitBudget := 0\<rparr>) 27 = None"
    by (simp add: RangeCheck_init_def)
  from o(1) e over_budget [where s = "RangeCheck_init\<lparr>m_nVisitBudget := 0\<rparr>"
      and getRange = "GetRange 20 ExC" and C = ExC and blk = 3 and expr = 27 and monotonic = False]
  obtain s3 where s3: "ComputeRange (GetRange 20 ExC) ExC 3 27 False
      (RangeCheck_init\<lparr>m_nVisitBudget := 0\<rparr>) = Inr (UnknownRange, s3)"
    by blast
  from o(1) s3 over_budget [where s = "RangeCheck_init\<lparr>m_nVisitBudget := 0\<rparr>"
      and getRange = "GetRange 20 ExC" and C = ExC and blk = 3 and expr = 27 and monotonic = False
      and r = UnknownRange and ?s3.0 = s3]
  have "IsOverBudget s3"
    by blast
  with s3 have 4: "\<exists>s3. ComputeRange (GetRange 20 ExC) ExC 3 27 False
      (RangeCheck_init\<lparr>m_nVisitBudget := 0\<rparr>) = Inr (UnknownRange, s3) \<and> IsOverBudget s3"
    by blast
  from 1 2 3 4 show ?thesis by simp
qed




end
